theory Spec2Isabelle
  imports Complex_Main "HOL-Library.AList"
begin

section \<open>Conventions of the embedding\<close>

text \<open>
  The Python sources \<^verbatim>\<open>cea_post.py\<close> and \<^verbatim>\<open>design_EBHR.py\<close> are embedded
  function by function. A Python exception is the left injection of a sum type, a
  result the right one. numpy's float64 values are modelled by the real numbers, so
  every equation below is one between exact real expressions; inputs at which the
  program divides by zero (where numpy yields inf or nan) are excluded by hypotheses
  wherever the value matters.

  The routines of scipy (\<^verbatim>\<open>interpolate.interp2d\<close>, \<^verbatim>\<open>optimize.newton\<close>,
  \<^verbatim>\<open>optimize.brentq\<close>) are not part of the repository: they are parameters of the
  functions that call them, and so is the module \<^verbatim>\<open>execute\<close> that
  \<^verbatim>\<open>design_EBHR.py\<close> imports its \<^verbatim>\<open>Read_datset\<close> from. Where a statement needs the
  routine itself, a model of it is given apart and said to be one.
\<close>

datatype error =
    IndexError
  | ValueError
  | UnboundLocalError
  | RuntimeError
  | AttributeError
  | FileNotFoundError
  | FitpackError
  | SystemExit int

definition ebind :: "error + 'a \<Rightarrow> ('a \<Rightarrow> error + 'b) \<Rightarrow> error + 'b" where
  "ebind m f = (case m of Inl e \<Rightarrow> Inl e | Inr x \<Rightarrow> f x)"

text \<open>Indexing of a list or a one-dimensional array: a negative index counts from the
  end, an index out of range raises IndexError.\<close>

definition getitem :: "'a list \<Rightarrow> int \<Rightarrow> error + 'a" where
  "getitem xs i =
     (if 0 \<le> i \<and> i < int (length xs) then Inr (xs ! nat i)
      else if i < 0 \<and> - int (length xs) \<le> i then Inr (xs ! nat (int (length xs) + i))
      else Inl IndexError)"

section \<open>cea\_post.py: the grid loader\<close>

text \<open>
  A table file as \<^verbatim>\<open>pd.read_csv(..., header=0, index_col=0)\<close> delivers it: the row
  labels, the column labels and the body. A dataset folder is the list of its table
  files, keyed by the name \<^verbatim>\<open>get_flist\<close> gives them, in the order \<^verbatim>\<open>glob\<close> lists
  them; \<open>None\<close> is a path that does not exist.
\<close>

record dataframe =
  df_index :: "real list"
  df_columns :: "real list"
  df_body :: "real list list"

type_synonym folder = "(string \<times> dataframe) list"

record Read_datset =
  self_fld_path :: "folder option"
  self_of :: "real list option"
  self_Pc :: "real list option"

definition get_flist :: "folder option \<Rightarrow> string list" where
  "get_flist fld_path = (case fld_path of None \<Rightarrow> [] | Some files \<Rightarrow> map fst files)"

text \<open>\<^verbatim>\<open>Read_datset.__init__\<close>: the axes are read from the first listed file; a missing
  folder only prints a message and leaves the axes unset.\<close>

definition Read_datset_init :: "folder option \<Rightarrow> error + Read_datset" where
  "Read_datset_init fld_path =
     (case fld_path of
        None \<Rightarrow> Inr \<lparr>self_fld_path = fld_path, self_of = None, self_Pc = None\<rparr>
      | Some files \<Rightarrow>
          ebind (getitem (get_flist fld_path) 0) (\<lambda>name.
            (case map_of files name of
               None \<Rightarrow> Inl FileNotFoundError
             | Some dataframe \<Rightarrow>
                 Inr \<lparr>self_fld_path = fld_path,
                      self_of = Some (df_index dataframe),
                      self_Pc = Some (df_columns dataframe)\<rparr>)))"

text \<open>\<^verbatim>\<open>Read_datset._read_csv_\<close>: the body of the named table, or \<^verbatim>\<open>sys.exit(1)\<close>
  after printing the list of the names there are.\<close>

definition read_csv :: "Read_datset \<Rightarrow> string \<Rightarrow> error + real list list" where
  "read_csv self param_name =
     (case self_fld_path self of
        None \<Rightarrow> Inl (SystemExit 1)
      | Some files \<Rightarrow>
          (case map_of files param_name of
             Some dataframe \<Rightarrow> Inr (df_body dataframe)
           | None \<Rightarrow> Inl (SystemExit 1)))"

section \<open>cea\_post.py: the interpolating function\<close>

text \<open>The \<^verbatim>\<open>extraporate\<close> argument of \<^verbatim>\<open>gen_func\<close>: the value \<^verbatim>\<open>False\<close> or a
  strategy name.\<close>

datatype extrap = ExFalse | ExName string

definition cea_exe :: "real \<Rightarrow> real \<Rightarrow> real option" where
  "cea_exe o_f Pc = None"

definition extrapfunc_linear :: "real \<Rightarrow> real \<Rightarrow> real \<Rightarrow> real \<Rightarrow> real" where
  "extrapfunc_linear o_f a b diff = diff * (o_f - a) + b"

text \<open>The slope estimates \<^verbatim>\<open>diff_begin\<close> and \<^verbatim>\<open>diff_end\<close>, with every array access
  of the source.\<close>

definition diff_begin :: "real list \<Rightarrow> real list \<Rightarrow> error + real" where
  "diff_begin cstr_array ofs =
     ebind (getitem cstr_array 0) (\<lambda>c0.
     ebind (getitem cstr_array 1) (\<lambda>c1.
     ebind (getitem cstr_array 2) (\<lambda>c2.
     ebind (getitem ofs 1) (\<lambda>o1.
     ebind (getitem ofs 0) (\<lambda>o0.
       Inr ((- 3 * c0 + 4 * c1 - c2) / (2 * (o1 - o0))))))))"

definition diff_end :: "real list \<Rightarrow> real list \<Rightarrow> error + real" where
  "diff_end cstr_array ofs =
     ebind (getitem cstr_array (int (length cstr_array) - 3)) (\<lambda>c3.
     ebind (getitem cstr_array (int (length cstr_array) - 2)) (\<lambda>c2.
     ebind (getitem cstr_array (int (length cstr_array) - 1)) (\<lambda>c1.
     ebind (getitem ofs (int (length ofs) - 1)) (\<lambda>o1.
     ebind (getitem ofs (int (length ofs) - 2)) (\<lambda>o2.
       Inr ((c3 - 4 * c2 + 3 * c1) / (2 * (o1 - o2))))))))"

text \<open>The branch of \<^verbatim>\<open>func\<close> for an O/F below the smallest one of the database. The
  result \<open>None\<close> is Python's \<^verbatim>\<open>None\<close>, which \<^verbatim>\<open>cea_exe\<close> returns; a strategy name
  other than \<^verbatim>\<open>"linear"\<close> leaves \<^verbatim>\<open>val\<close> unassigned, and \<^verbatim>\<open>return(val)\<close> raises.\<close>

definition func_below ::
  "real list \<Rightarrow> real list \<Rightarrow> extrap \<Rightarrow> real \<Rightarrow> real \<Rightarrow> error + real option" where
  "func_below cstr_array ofs extraporate o_f Pc =
     ebind (diff_begin cstr_array ofs) (\<lambda>diff_begin.
       let a = Min (set ofs) in
       ebind (getitem cstr_array 0) (\<lambda>b.
         (case extraporate of
            ExFalse \<Rightarrow> Inr (cea_exe o_f Pc)
          | ExName s \<Rightarrow>
              if s = ''linear'' then Inr (Some (extrapfunc_linear o_f a b diff_begin))
              else Inl UnboundLocalError)))"

text \<open>The branch for an O/F above the largest one of the database.\<close>

definition func_above ::
  "real list \<Rightarrow> real list \<Rightarrow> extrap \<Rightarrow> real \<Rightarrow> real \<Rightarrow> error + real option" where
  "func_above cstr_array ofs extraporate o_f Pc =
     ebind (diff_end cstr_array ofs) (\<lambda>diff_end.
       let a = Max (set ofs) in
       ebind (getitem cstr_array (int (length cstr_array) - 1)) (\<lambda>b.
         (case extraporate of
            ExFalse \<Rightarrow> Inr (cea_exe o_f Pc)
          | ExName s \<Rightarrow>
              if s = ''linear'' then Inr (Some (extrapfunc_linear o_f a b diff_end))
              else Inl UnboundLocalError)))"

text \<open>The branch for an O/F within the range: \<^verbatim>\<open>func_interp(of, Pc)[0]\<close>.\<close>

definition func_within :: "(real \<Rightarrow> real \<Rightarrow> real) \<Rightarrow> real \<Rightarrow> real \<Rightarrow> real" where
  "func_within func_interp o_f Pc = func_interp o_f Pc"

text \<open>
  The function \<^verbatim>\<open>func(of, Pc)\<close> that \<^verbatim>\<open>gen_func\<close> returns. \<open>func_interp\<close> is the
  surface fitted by \<^verbatim>\<open>interp2d\<close>, \<open>ofs\<close> is \<^verbatim>\<open>self.of\<close>. The pressure is scaled by
  \<^verbatim>\<open>1.0e-6\<close> first, and \<^verbatim>\<open>cstr_array\<close> is the surface at every O/F of the database
  for that pressure. \<^verbatim>\<open>self.of.min()\<close> of an empty array raises ValueError.
\<close>

definition func ::
  "(real \<Rightarrow> real \<Rightarrow> real) \<Rightarrow> real list \<Rightarrow> extrap \<Rightarrow> real \<Rightarrow> real \<Rightarrow> error + real option" where
  "func func_interp ofs extraporate o_f Pc0 =
     (let Pc = Pc0 * (1 / 1000000);
          cstr_array = map (\<lambda>x. func_interp x Pc) ofs
      in if ofs = [] then Inl ValueError
         else if o_f < Min (set ofs) then func_below cstr_array ofs extraporate o_f Pc
         else if Max (set ofs) < o_f then func_above cstr_array ofs extraporate o_f Pc
         else Inr (Some (func_within func_interp o_f Pc)))"

text \<open>\<^verbatim>\<open>Read_datset.gen_func\<close>: reads the table, fits the surface over
  \<^verbatim>\<open>(self.of, self.Pc, array.T)\<close> and returns \<^verbatim>\<open>func\<close>. An instance built on a
  missing folder has no axes; reading its table has already left the process by then.\<close>

definition gen_func_grid ::
  "Read_datset \<Rightarrow> string \<Rightarrow> error + (real list \<times> real list \<times> real list list)" where
  "gen_func_grid self param_name =
     ebind (read_csv self param_name) (\<lambda>array.
       (case (self_of self, self_Pc self) of
          (Some ofs, Some pcs) \<Rightarrow> Inr (ofs, pcs, array)
        | _ \<Rightarrow> Inl AttributeError))"

definition gen_func ::
  "(real list \<Rightarrow> real list \<Rightarrow> real list list \<Rightarrow> error + (real \<Rightarrow> real \<Rightarrow> real)) \<Rightarrow>
   Read_datset \<Rightarrow> string \<Rightarrow> extrap \<Rightarrow> error + (real \<Rightarrow> real \<Rightarrow> error + real option)" where
  "gen_func interp2d self param_name extraporate =
     ebind (gen_func_grid self param_name) (\<lambda>(ofs, pcs, array).
     ebind (interp2d ofs pcs (transpose array)) (\<lambda>func_interp.
       Inr (func func_interp ofs extraporate)))"

text \<open>The call chain \<^verbatim>\<open>Read_datset(fld_path).gen_func(param_name, extraporate)(of, Pc)\<close>:
  the value of a named property at a point.\<close>

definition property_value ::
  "(real list \<Rightarrow> real list \<Rightarrow> real list list \<Rightarrow> error + (real \<Rightarrow> real \<Rightarrow> real)) \<Rightarrow>
   folder option \<Rightarrow> string \<Rightarrow> extrap \<Rightarrow> real \<Rightarrow> real \<Rightarrow> error + real option" where
  "property_value interp2d fld_path param_name extraporate o_f Pc =
     ebind (Read_datset_init fld_path) (\<lambda>self.
     ebind (gen_func interp2d self param_name extraporate) (\<lambda>func. func o_f Pc))"

section \<open>The fitted surface\<close>

text \<open>The cubic through four points, in Lagrange form.\<close>

definition lagrange4 ::
  "real \<Rightarrow> real \<Rightarrow> real \<Rightarrow> real \<Rightarrow> real \<Rightarrow> real \<Rightarrow> real \<Rightarrow> real \<Rightarrow> real \<Rightarrow> real" where
  "lagrange4 x0 x1 x2 x3 v0 v1 v2 v3 x =
     v0 * ((x - x1) * (x - x2) * (x - x3)) / ((x0 - x1) * (x0 - x2) * (x0 - x3))
   + v1 * ((x - x0) * (x - x2) * (x - x3)) / ((x1 - x0) * (x1 - x2) * (x1 - x3))
   + v2 * ((x - x0) * (x - x1) * (x - x3)) / ((x2 - x0) * (x2 - x1) * (x2 - x3))
   + v3 * ((x - x0) * (x - x1) * (x - x2)) / ((x3 - x0) * (x3 - x1) * (x3 - x2))"

text \<open>A piecewise cubic through the points \<open>(xs[i], vs[i])\<close>: between two nodes it is the
  cubic through the four nodes around them, at either end the cubic through the four
  outermost nodes.\<close>

fun cubic1d :: "real list \<Rightarrow> real list \<Rightarrow> real \<Rightarrow> real" where
  "cubic1d (x0 # x1 # x2 # x3 # xs) (v0 # v1 # v2 # v3 # vs) x =
     (if xs = [] \<or> x \<le> x2 then lagrange4 x0 x1 x2 x3 v0 v1 v2 v3 x
      else cubic1d (x1 # x2 # x3 # xs) (v1 # v2 # v3 # vs) x)"
| "cubic1d xs vs x = 0"

text \<open>A coordinate outside an axis is held at the nearest end of the axis.\<close>

definition held :: "real list \<Rightarrow> real \<Rightarrow> real" where
  "held xs u = (case xs of [] \<Rightarrow> u | x0 # _ \<Rightarrow> max x0 (min (last xs) u))"

text \<open>
  Modelled from the spec: \<^verbatim>\<open>interpolate.interp2d(x, y, z, kind="cubic", bounds_error=False)\<close>,
  a routine of scipy that is not under src. The spec has it fit, once over the full
  grid, a surface of order 3 in both axes that reproduces the grid values at the grid
  nodes. The surface here is the piecewise cubic along \<open>x\<close> of each row of \<open>z\<close>, and the
  piecewise cubic along \<open>y\<close> of those. \<open>z\<close> has one row per \<open>y\<close>, as \<^verbatim>\<open>array.T\<close> has.
  An order-3 fit takes four points on each axis: the routine raises on a smaller grid,
  and on a table that does not have the shape of its axes.
\<close>

definition interp2d_cubic ::
  "real list \<Rightarrow> real list \<Rightarrow> real list list \<Rightarrow> error + (real \<Rightarrow> real \<Rightarrow> real)" where
  "interp2d_cubic x y z =
     (if length z \<noteq> length y \<or> \<not> list_all (\<lambda>row. length row = length x) z
      then Inl ValueError
      else if length x < 4 \<or> length y < 4 then Inl FitpackError
      else Inr (\<lambda>u v. cubic1d y (map (\<lambda>row. cubic1d x row (held x u)) z) (held y v)))"

section \<open>design\_EBHR.py: the physical correlations\<close>

text \<open>\<^verbatim>\<open>np.power(x, n)\<close> for a float exponent: a whole exponent is an integer power,
  any other one the real power.\<close>

definition np_power :: "real \<Rightarrow> real \<Rightarrow> real" where
  "np_power x n = (if n = of_int \<lfloor>n\<rfloor> then x powi \<lfloor>n\<rfloor> else x powr n)"

definition func_Vox :: "real \<Rightarrow> real \<Rightarrow> real \<Rightarrow> real \<Rightarrow> real \<Rightarrow> real \<Rightarrow> real" where
  "func_Vox Pc mox Rm Tox Df a =
     (let Af = pi * Df\<^sup>2 / 4 in mox * Rm * Tox / (Pc * Af * (1 - a)))"

definition func_Vf :: "real \<Rightarrow> real \<Rightarrow> real \<Rightarrow> real \<Rightarrow> real \<Rightarrow> real" where
  "func_Vf Vox Pc C1 C2 n = (C1 / Vox + C2) * np_power Pc n"

definition func_of :: "real \<Rightarrow> real \<Rightarrow> real \<Rightarrow> real \<Rightarrow> real \<Rightarrow> real" where
  "func_of Vox Vf rho_f Df a =
     (let Af = pi * Df\<^sup>2 / 4 in Vox / (rho_f * Af * a * Vf))"

text \<open>The characteristic-velocity function is an argument of \<^verbatim>\<open>func_Pc_cal\<close>; its
  result is indexed with \<^verbatim>\<open>[0]\<close>, so it is an array here.\<close>

type_synonym cstr_fun = "real \<Rightarrow> real \<Rightarrow> error + real list"

definition func_Pc_cal ::
  "real \<Rightarrow> real \<Rightarrow> real \<Rightarrow> cstr_fun \<Rightarrow> real \<Rightarrow> real \<Rightarrow> error + real" where
  "func_Pc_cal o_f Pc mox func_cstr Dt eta =
     ebind (func_cstr o_f (Pc * (1 / 1000000))) (\<lambda>r.
     ebind (getitem r 0) (\<lambda>cstr.
       let At = pi * Dt\<^sup>2 / 4 in Inr (eta * cstr * mox * (1 + 1 / o_f) / At)))"

section \<open>design\_EBHR.py: the chamber-pressure solver\<close>

record Gen_excond_table =
  self_a :: real
  self_Df :: real
  self_eta :: real
  self_rho_f :: real
  self_Rm :: real
  self_Tox :: real
  self_C1 :: real
  self_C2 :: real
  self_cea_path :: string
  self_mox_range :: "real list"
  self_Dt_range :: "real list"

text \<open>\<^verbatim>\<open>Gen_excond_table.__init__\<close>; the two ranges are what \<^verbatim>\<open>_input_range_\<close> has
  read from the terminal.\<close>

definition Gen_excond_table_init ::
  "real \<Rightarrow> real \<Rightarrow> real \<Rightarrow> real \<Rightarrow> real \<Rightarrow> real \<Rightarrow> real \<Rightarrow> real \<Rightarrow> real \<Rightarrow> string \<Rightarrow>
   real list \<Rightarrow> real list \<Rightarrow> Gen_excond_table" where
  "Gen_excond_table_init d N Df eta rho_f Rm Tox C1 C2 cea_path mox_range Dt_range =
     \<lparr>self_a = 1 - N * d\<^sup>2 / Df\<^sup>2,
      self_Df = Df * (1 / 1000),
      self_eta = eta,
      self_rho_f = rho_f,
      self_Rm = Rm,
      self_Tox = Tox,
      self_C1 = C1,
      self_C2 = C2,
      self_cea_path = cea_path,
      self_mox_range = mox_range,
      self_Dt_range = Dt_range\<rparr>"

text \<open>\<^verbatim>\<open>_iterat_func_Pc_\<close>: the function whose root the solver looks for.
  \<open>gen_func_cstr\<close> stands for the function of that name, which builds the
  characteristic-velocity function from the folder at every call.\<close>

definition iterat_func_Pc ::
  "(string \<Rightarrow> error + cstr_fun) \<Rightarrow> Gen_excond_table \<Rightarrow> real \<Rightarrow> real \<Rightarrow> real \<Rightarrow> error + real" where
  "iterat_func_Pc gen_func_cstr self Pc mox Dt =
     (let Vox = func_Vox Pc mox (self_Rm self) (self_Tox self) (self_Df self) (self_a self);
          Vf = func_Vf Vox Pc (self_C1 self) (self_C2 self) 1;
          o_f = func_of Vox Vf (self_rho_f self) (self_Df self) (self_a self)
      in ebind (gen_func_cstr (self_cea_path self)) (\<lambda>func_cstr.
         ebind (func_Pc_cal o_f Pc mox func_cstr Dt (self_eta self)) (\<lambda>Pc_cal.
           let diff = Pc_cal - Pc; error = diff / Pc_cal in Inr error)))"

text \<open>The two root finders of \<^verbatim>\<open>scipy.optimize\<close>, as they are called: the function, the
  start value or the bracket, \<^verbatim>\<open>maxiter\<close>, the tolerance and \<^verbatim>\<open>args\<close>.\<close>

type_synonym residual = "real \<Rightarrow> real \<Rightarrow> real \<Rightarrow> error + real"

record optimize =
  newton :: "residual \<Rightarrow> real \<Rightarrow> nat \<Rightarrow> real \<Rightarrow> real \<times> real \<Rightarrow> error + real"
  brentq :: "residual \<Rightarrow> real \<Rightarrow> real \<Rightarrow> nat \<Rightarrow> real \<Rightarrow> real \<times> real \<Rightarrow> error + real"

text \<open>\<^verbatim>\<open>converge_Pc\<close>: the bare \<^verbatim>\<open>except:\<close> catches whatever the Newton call raises.\<close>

definition converge_Pc ::
  "optimize \<Rightarrow> (string \<Rightarrow> error + cstr_fun) \<Rightarrow> Gen_excond_table \<Rightarrow>
   real \<Rightarrow> real \<Rightarrow> real \<Rightarrow> error + real" where
  "converge_Pc opt gen_func_cstr self mox Dt Pc_init =
     (case newton opt (iterat_func_Pc gen_func_cstr self) Pc_init 10 (1 / 1000) (mox, Dt) of
        Inr Pc \<Rightarrow> Inr Pc
      | Inl _ \<Rightarrow>
          brentq opt (iterat_func_Pc gen_func_cstr self) 10000 10000000 50 (1 / 1000) (mox, Dt))"




section \<open>The specification's wording of the loader, the pressure and the residual\<close>

text \<open>\<open>load(sourceId) -> Grid\<close>: the row index, the column index and the body of the
  named table, or \<open>DatasetNotFound\<close>.\<close>

datatype load_error = DatasetNotFound

definition spec_load ::
  "folder \<Rightarrow> string \<Rightarrow> load_error + (real list \<times> real list \<times> real list list)" where
  "spec_load files sourceId =
     (case map_of files sourceId of
        None \<Rightarrow> Inl DatasetNotFound
      | Some t \<Rightarrow> Inr (df_index t, df_columns t, df_body t))"

text \<open>\<open>predictedChamberPressure\<close>: the characteristic velocity looked up at
  \<open>(of, Pc)\<close>, scaled by the mass flow terms and the efficiency, over the throat area.\<close>

definition spec_predictedChamberPressure ::
  "real \<Rightarrow> real \<Rightarrow> real \<Rightarrow> (real \<Rightarrow> real \<Rightarrow> real) \<Rightarrow> real \<Rightarrow> real \<Rightarrow> real" where
  "spec_predictedChamberPressure o_f Pc mox charVelocityFn Dt efficiency =
     efficiency * charVelocityFn o_f Pc * mox * (1 + 1 / o_f) / (pi * Dt\<^sup>2 / 4)"

text \<open>The residual \<open>r(Pc) = predictedChamberPressure(...) - Pc\<close>, over the pressure that
  the program predicts.\<close>

definition spec_residual ::
  "(string \<Rightarrow> error + cstr_fun) \<Rightarrow> Gen_excond_table \<Rightarrow> real \<Rightarrow> real \<Rightarrow> real \<Rightarrow> error + real" where
  "spec_residual gen_func_cstr self Pc mox Dt =
     (let Vox = func_Vox Pc mox (self_Rm self) (self_Tox self) (self_Df self) (self_a self);
          Vf = func_Vf Vox Pc (self_C1 self) (self_C2 self) 1;
          o_f = func_of Vox Vf (self_rho_f self) (self_Df self) (self_a self)
      in ebind (gen_func_cstr (self_cea_path self)) (\<lambda>func_cstr.
         ebind (func_Pc_cal o_f Pc mox func_cstr Dt (self_eta self)) (\<lambda>Pc_cal.
           Inr (Pc_cal - Pc))))"

section \<open>Example inputs\<close>

text \<open>Two fitted surfaces: one that returns the mixture ratio, one that is a parabola in
  it.\<close>

definition ratio_surface :: "real \<Rightarrow> real \<Rightarrow> real" where
  "ratio_surface x y = x"

definition square_surface :: "real \<Rightarrow> real \<Rightarrow> real" where
  "square_surface x y = x * x + y"

text \<open>Two tables over four pressures: one that holds the pressure of each cell, and one
  that holds the mixture ratio of each cell, over ratios that are not equally spaced.\<close>

definition pressure_table :: dataframe where
  "pressure_table =
     \<lparr>df_index = [1, 2, 3, 4], df_columns = [1, 2, 3, 4],
      df_body = [[1, 2, 3, 4], [1, 2, 3, 4], [1, 2, 3, 4], [1, 2, 3, 4]]\<rparr>"

definition pressure_folder :: folder where
  "pressure_folder = [(''CSTAR'', pressure_table)]"

definition ratio_table :: dataframe where
  "ratio_table =
     \<lparr>df_index = [0, 1, 3, 4], df_columns = [1, 2, 3, 4],
      df_body = [[0, 0, 0, 0], [1, 1, 1, 1], [3, 3, 3, 3], [4, 4, 4, 4]]\<rparr>"

definition ratio_folder :: folder where
  "ratio_folder = [(''CSTAR'', ratio_table)]"



text \<open>A folder of two tables over different axes, and the instance built on it.\<close>

definition two_tables :: folder where
  "two_tables =
     [(''CSTAR'', \<lparr>df_index = [1, 2], df_columns = [10, 20], df_body = [[1, 2], [3, 4]]\<rparr>),
      (''T_c'', \<lparr>df_index = [5, 6], df_columns = [30, 40], df_body = [[7, 8], [9, 10]]\<rparr>)]"

definition two_tables_inst :: Read_datset where
  "two_tables_inst =
     \<lparr>self_fld_path = Some two_tables, self_of = Some [1, 2], self_Pc = Some [10, 20]\<rparr>"

text \<open>A characteristic-velocity function that returns its pressure argument, and a
  synthetic one, \<open>1500 * of / (1 + of)\<close>, for which the predicted pressure does not
  depend on the assumed one.\<close>

definition pressure_velocity :: "real \<Rightarrow> real \<Rightarrow> real" where
  "pressure_velocity o_f Pc = Pc"

definition pressure_cstr :: cstr_fun where
  "pressure_cstr o_f Pc = Inr [pressure_velocity o_f Pc]"

definition saturating_cstr :: cstr_fun where
  "saturating_cstr o_f Pc = Inr [1500 * o_f / (1 + o_f)]"

definition saturating_gen_func_cstr :: "string \<Rightarrow> error + cstr_fun" where
  "saturating_gen_func_cstr cea_path = Inr saturating_cstr"

text \<open>The same function over a table that ends at 12 MPa: it raises ValueError for a
  pressure beyond, as an interpolant that checks its bounds does.\<close>

definition bounded_cstr :: cstr_fun where
  "bounded_cstr o_f Pc = (if 12 < Pc then Inl ValueError else Inr [1500 * o_f / (1 + o_f)])"

definition bounded_gen_func_cstr :: "string \<Rightarrow> error + cstr_fun" where
  "bounded_gen_func_cstr cea_path = Inr bounded_cstr"

text \<open>The motor of the \<^verbatim>\<open>__main__\<close> block of \<^verbatim>\<open>design_EBHR.py\<close>, swept over the
  mass flows 10 and 40 g/s and the throat diameters 2 and 3.5 mm (in kg/s and m).\<close>

definition main_motor :: Gen_excond_table where
  "main_motor =
     Gen_excond_table_init (3 / 10) 433 38 (9 / 10) 1191 (2598 / 10) 280
       (934 / 10000000000) (246 / 100000000000) ''cea_db''
       [1 / 100, 1 / 25] [1 / 500, 7 / 2000]"

text \<open>
  A model of \<^verbatim>\<open>optimize.newton\<close> as it is called, without a derivative: the secant
  iteration from \<open>x0\<close> and a point next to it. It raises ValueError for a tolerance or an
  iteration count that is not positive, RuntimeError when two function values coincide
  at different points or when \<open>maxiter\<close> steps have not moved the iterate by \<open>tol\<close> or
  less, and whatever the function raises.
\<close>

fun secant_loop ::
  "(real \<Rightarrow> error + real) \<Rightarrow> real \<Rightarrow> nat \<Rightarrow> real \<Rightarrow> real \<Rightarrow> real \<Rightarrow> real \<Rightarrow> error + real" where
  "secant_loop f tol 0 p0 q0 p1 q1 = Inl RuntimeError"
| "secant_loop f tol (Suc n) p0 q0 p1 q1 =
     (if q1 = q0 then (if p1 \<noteq> p0 then Inl RuntimeError else Inr ((p1 + p0) / 2))
      else
        let p = (if \<bar>q1\<bar> > \<bar>q0\<bar> then (- q0 / q1 * p1 + p0) / (1 - q0 / q1)
                 else (- q1 / q0 * p0 + p1) / (1 - q1 / q0))
        in if \<bar>p - p1\<bar> \<le> tol then Inr p
           else ebind (f p) (\<lambda>q. secant_loop f tol n p1 q1 p q))"

definition secant_newton ::
  "residual \<Rightarrow> real \<Rightarrow> nat \<Rightarrow> real \<Rightarrow> real \<times> real \<Rightarrow> error + real" where
  "secant_newton f x0 maxiter tol args =
     (if tol \<le> 0 \<or> maxiter < 1 then Inl ValueError
      else
        let g = (\<lambda>p. f p (fst args) (snd args));
            p0 = x0;
            p1 = x0 * (1 + 1 / 10000) + (if 0 \<le> x0 * (1 + 1 / 10000) then 1 / 10000 else - (1 / 10000))
        in ebind (g p0) (\<lambda>q0.
           ebind (g p1) (\<lambda>q1.
             if \<bar>q1\<bar> < \<bar>q0\<bar> then secant_loop g tol maxiter p1 q1 p0 q0
             else secant_loop g tol maxiter p0 q0 p1 q1)))"

text \<open>A stand-in for \<^verbatim>\<open>optimize.brentq\<close>: it raises ValueError when the function has one
  sign at both ends of the bracket, as \<^verbatim>\<open>brentq\<close> does, and otherwise answers with the
  middle of the bracket.\<close>

definition sign_brentq ::
  "residual \<Rightarrow> real \<Rightarrow> real \<Rightarrow> nat \<Rightarrow> real \<Rightarrow> real \<times> real \<Rightarrow> error + real" where
  "sign_brentq f a b maxiter xtol args =
     ebind (f a (fst args) (snd args)) (\<lambda>fa.
     ebind (f b (fst args) (snd args)) (\<lambda>fb.
       if fa * fb > 0 then Inl ValueError else Inr ((a + b) / 2)))"

definition stand_in_optimize :: optimize where
  "stand_in_optimize = \<lparr>newton = secant_newton, brentq = sign_brentq\<rparr>"

section \<open>The specification's slope estimates\<close>

text \<open>The one-sided three-point estimate of a slope at \<open>x0\<close>, of second order: the slope
  at \<open>x0\<close> of the parabola through \<open>(x0, f0)\<close>, \<open>(x1, f1)\<close> and \<open>(x2, f2)\<close>.\<close>

definition spec_three_point_slope ::
  "real \<Rightarrow> real \<Rightarrow> real \<Rightarrow> real \<Rightarrow> real \<Rightarrow> real \<Rightarrow> real" where
  "spec_three_point_slope f0 f1 f2 x0 x1 x2 =
     f0 * (2 * x0 - x1 - x2) / ((x0 - x1) * (x0 - x2))
   + f1 * (x0 - x2) / ((x1 - x0) * (x1 - x2))
   + f2 * (x0 - x1) / ((x2 - x0) * (x2 - x1))"

text \<open>The estimate at \<open>of.min()\<close> over the in-range surface at the first three grid
  mixture ratios, for the pressure \<open>p\<close>, and its mirror image at \<open>of.max()\<close> over the
  last three.\<close>

definition spec_slope_first_three :: "(real \<Rightarrow> real \<Rightarrow> real) \<Rightarrow> real \<Rightarrow> real list \<Rightarrow> real" where
  "spec_slope_first_three S p ofs =
     spec_three_point_slope
       (func_within S (ofs ! 0) p) (func_within S (ofs ! 1) p) (func_within S (ofs ! 2) p)
       (ofs ! 0) (ofs ! 1) (ofs ! 2)"

definition spec_slope_last_three :: "(real \<Rightarrow> real \<Rightarrow> real) \<Rightarrow> real \<Rightarrow> real list \<Rightarrow> real" where
  "spec_slope_last_three S p ofs =
     (let n = length ofs
      in spec_three_point_slope
           (func_within S (ofs ! (n - 1)) p) (func_within S (ofs ! (n - 2)) p)
           (func_within S (ofs ! (n - 3)) p)
           (ofs ! (n - 1)) (ofs ! (n - 2)) (ofs ! (n - 3)))"

section \<open>Auxiliary facts\<close>

lemma ebind_Inr: "ebind (Inr x) f = f x"
  by (simp add: ebind_def)

lemma ebind_Inl: "ebind (Inl e) f = Inl e"
  by (simp add: ebind_def)

lemma getitem_nat: "i < length xs \<Longrightarrow> getitem xs (int i) = Inr (xs ! i)"
  by (simp add: getitem_def)

lemma getitem_from_end:
  "0 < k \<Longrightarrow> k \<le> length xs \<Longrightarrow> getitem xs (int (length xs) - int k) = Inr (xs ! (length xs - k))"
  by (auto simp add: getitem_def Let_def nat_diff_distrib' intro: arg_cong)

lemma Min_increasing:
  assumes "sorted_wrt (<) xs" "xs \<noteq> []"
  shows "Min (set xs) = xs ! 0"
proof -
  obtain y ys where xs: "xs = y # ys" using assms(2) by (cases xs) auto
  have "\<forall>z \<in> set ys. y \<le> z" using assms(1) xs by auto
  then have "Min (insert y (set ys)) = y"
    by (intro Min_eqI) auto
  then show ?thesis using xs by simp
qed

lemma Max_increasing:
  assumes "sorted_wrt (<) (xs :: real list)" "xs \<noteq> []"
  shows "Max (set xs) = xs ! (length xs - 1)"
proof -
  have "\<forall>z \<in> set xs. z \<le> last xs"
  proof
    fix z assume "z \<in> set xs"
    then obtain i where i: "i < length xs" "xs ! i = z" by (auto simp: in_set_conv_nth)
    show "z \<le> last xs"
    proof (cases "i = length xs - 1")
      case True then show ?thesis using i assms(2) by (simp add: last_conv_nth)
    next
      case False
      then have "i < length xs - 1" using i by simp
      then have "xs ! i < xs ! (length xs - 1)"
        using sorted_wrt_nth_less [OF assms(1), of i "length xs - 1"] i by simp
      then show ?thesis using i assms(2) by (simp add: last_conv_nth)
    qed
  qed
  moreover have "last xs \<in> set xs" using assms(2) by simp
  ultimately have "Max (set xs) = last xs" by (intro Max_eqI) auto
  then show ?thesis using assms(2) by (simp add: last_conv_nth)
qed

lemma diff_begin_three:
  assumes "3 \<le> length ofs"
  shows "diff_begin (map g ofs) ofs
           = Inr ((- 3 * g (ofs ! 0) + 4 * g (ofs ! 1) - g (ofs ! 2)) / (2 * (ofs ! 1 - ofs ! 0)))"
proof -
  have "getitem (map g ofs) 0 = Inr (g (ofs ! 0))"
       "getitem (map g ofs) 1 = Inr (g (ofs ! 1))"
       "getitem (map g ofs) 2 = Inr (g (ofs ! 2))"
       "getitem ofs 0 = Inr (ofs ! 0)"
       "getitem ofs 1 = Inr (ofs ! 1)"
    using assms by (auto simp add: getitem_def)
  then show ?thesis
    by (simp add: diff_begin_def ebind_Inr)
qed

lemma diff_end_three:
  assumes "3 \<le> length ofs"
  shows "diff_end (map g ofs) ofs
           = Inr ((g (ofs ! (length ofs - 3)) - 4 * g (ofs ! (length ofs - 2))
                     + 3 * g (ofs ! (length ofs - 1)))
                  / (2 * (ofs ! (length ofs - 1) - ofs ! (length ofs - 2))))"
proof -
  let ?n = "length ofs"
  have "getitem (map g ofs) (int (length (map g ofs)) - 3) = Inr (g (ofs ! (?n - 3)))"
       "getitem (map g ofs) (int (length (map g ofs)) - 2) = Inr (g (ofs ! (?n - 2)))"
       "getitem (map g ofs) (int (length (map g ofs)) - 1) = Inr (g (ofs ! (?n - 1)))"
       "getitem ofs (int ?n - 1) = Inr (ofs ! (?n - 1))"
       "getitem ofs (int ?n - 2) = Inr (ofs ! (?n - 2))"
    using assms getitem_from_end [of 3 "map g ofs"] getitem_from_end [of 2 "map g ofs"]
      getitem_from_end [of 1 "map g ofs"] getitem_from_end [of 1 ofs] getitem_from_end [of 2 ofs]
    by simp_all
  then show ?thesis
    by (simp add: diff_end_def ebind_Inr)
qed

lemma func_in_range:
  "ofs \<noteq> [] \<Longrightarrow> \<not> o_f < Min (set ofs) \<Longrightarrow> \<not> Max (set ofs) < o_f \<Longrightarrow>
   func S ofs ex o_f Pc = Inr (Some (func_within S o_f (Pc * (1 / 1000000))))"
  unfolding func_def Let_def by (simp only: if_False)

lemma func_is_below:
  "ofs \<noteq> [] \<Longrightarrow> o_f < Min (set ofs) \<Longrightarrow>
   func S ofs ex o_f Pc
     = func_below (map (\<lambda>x. S x (Pc * (1 / 1000000))) ofs) ofs ex o_f (Pc * (1 / 1000000))"
  unfolding func_def Let_def by (simp only: if_False if_True)

lemma func_is_above:
  "ofs \<noteq> [] \<Longrightarrow> \<not> o_f < Min (set ofs) \<Longrightarrow> Max (set ofs) < o_f \<Longrightarrow>
   func S ofs ex o_f Pc
     = func_above (map (\<lambda>x. S x (Pc * (1 / 1000000))) ofs) ofs ex o_f (Pc * (1 / 1000000))"
  unfolding func_def Let_def by (simp only: if_False if_True)

subsection \<open>The example motor\<close>


lemma main_motor_fields:
  "self_a main_motor = 140503 / 144400" "self_Df main_motor = 38 / 1000"
  "self_eta main_motor = 9 / 10" "self_rho_f main_motor = 1191"
  "self_Rm main_motor = 2598 / 10" "self_Tox main_motor = 280"
  "self_C1 main_motor = 934 / 10000000000" "self_C2 main_motor = 246 / 100000000000"
  "self_mox_range main_motor = [1 / 100, 1 / 25]"
  "self_Dt_range main_motor = [1 / 500, 7 / 2000]"
  by (simp_all add: main_motor_def Gen_excond_table_init_def power2_eq_square)

lemma main_motor_of_pos:
  assumes "0 < Pc" and "0 < mox"
  shows "0 < func_of (func_Vox Pc mox (2598 / 10) 280 (38 / 1000) (140503 / 144400))
               (func_Vf (func_Vox Pc mox (2598 / 10) 280 (38 / 1000) (140503 / 144400))
                  Pc (934 / 10000000000) (246 / 100000000000) 1)
               1191 (38 / 1000) (140503 / 144400)"
proof -
  let ?Vox = "func_Vox Pc mox (2598 / 10) 280 (38 / 1000) (140503 / 144400)"
  have vox: "0 < ?Vox"
    using assms by (simp add: func_Vox_def Let_def zero_less_mult_iff zero_less_divide_iff)
  let ?Vf = "func_Vf ?Vox Pc (934 / 10000000000) (246 / 100000000000) 1"
  have "0 < 934 / 10000000000 / ?Vox + 246 / 100000000000"
    using vox by (simp add: add_pos_pos)
  then have vf: "0 < ?Vf"
    using assms(1) by (simp add: func_Vf_def np_power_def)
  show ?thesis
    using vox vf by (simp add: func_of_def Let_def zero_less_mult_iff zero_less_divide_iff)
qed

lemma getitem_head: "getitem (x # xs) 0 = Inr x"
  by (simp add: getitem_def)

lemma saturating_Pc_cal:
  assumes "0 < o_f"
  shows "func_Pc_cal o_f Pc mox saturating_cstr Dt (9 / 10) = Inr (5400 * mox / (pi * Dt\<^sup>2))"
proof -
  have nz: "o_f \<noteq> 0" "1 + o_f \<noteq> 0" using assms by simp_all
  have cancel: "k * b / c * (c / b) = k" if "b \<noteq> 0" "c \<noteq> 0" for k b c :: real
    using that by simp
  have e1: "1 + 1 / o_f = (1 + o_f) / o_f"
    using nz(1) by (simp add: add_divide_distrib)
  have xy: "1500 * o_f / (1 + o_f) * (1 + 1 / o_f) = 1500"
    unfolding e1 using cancel [OF nz] .
  have re: "a * x * m * y = a * m * (x * y)" for a x m y :: real
    by (simp add: ac_simps)
  have m1: "9 / 10 * (1500 * o_f / (1 + o_f)) * mox * (1 + 1 / o_f) = 1350 * mox"
    unfolding re xy by simp
  have eq: "9 / 10 * (1500 * o_f / (1 + o_f)) * mox * (1 + 1 / o_f) / (pi * Dt\<^sup>2 / 4)
                   = 5400 * mox / (pi * Dt\<^sup>2)"
    unfolding m1 by simp
  have "func_Pc_cal o_f Pc mox saturating_cstr Dt (9 / 10)
          = Inr (9 / 10 * (1500 * o_f / (1 + o_f)) * mox * (1 + 1 / o_f) / (pi * Dt\<^sup>2 / 4))"
    unfolding func_Pc_cal_def saturating_cstr_def ebind_Inr getitem_head Let_def
    by (rule refl)
  then show ?thesis unfolding eq .
qed

lemma main_motor_residual:
  assumes "0 < Pc" and "0 < mox"
  shows "iterat_func_Pc saturating_gen_func_cstr main_motor Pc mox Dt
           = Inr ((5400 * mox / (pi * Dt\<^sup>2) - Pc) / (5400 * mox / (pi * Dt\<^sup>2)))"
  unfolding iterat_func_Pc_def Let_def main_motor_fields saturating_gen_func_cstr_def ebind_Inr
    saturating_Pc_cal [OF main_motor_of_pos [OF assms]]
  by simp


lemma main_motor_residual_r:
  assumes "0 < Pc" and "0 < mox"
  shows "spec_residual saturating_gen_func_cstr main_motor Pc mox Dt
           = Inr (5400 * mox / (pi * Dt\<^sup>2) - Pc)"
  unfolding spec_residual_def Let_def main_motor_fields saturating_gen_func_cstr_def ebind_Inr
    saturating_Pc_cal [OF main_motor_of_pos [OF assms]]
  by simp

subsection \<open>The two loops of the sweep\<close>




subsection \<open>The instance of a folder\<close>

lemma Read_datset_init_Some:
  assumes "Read_datset_init (Some files) = Inr self"
  shows "files \<noteq> []"
    and "self = \<lparr>self_fld_path = Some files,
                  self_of = Some (df_index (snd (hd files))),
                  self_Pc = Some (df_columns (snd (hd files)))\<rparr>"
proof -
  show ne: "files \<noteq> []"
    using assms by (auto simp add: Read_datset_init_def get_flist_def getitem_def ebind_def)
  then obtain n t others where f: "files = (n, t) # others" by (cases files) auto
  show "self = \<lparr>self_fld_path = Some files,
                  self_of = Some (df_index (snd (hd files))),
                  self_Pc = Some (df_columns (snd (hd files)))\<rparr>"
    using assms unfolding f
    by (simp add: Read_datset_init_def get_flist_def getitem_def ebind_def)
qed


subsection \<open>The fitted surface at the grid nodes\<close>

lemma lagrange4_nodes:
  assumes "x0 < x1" "x1 < x2" "x2 < x3"
  shows "lagrange4 x0 x1 x2 x3 v0 v1 v2 v3 x0 = v0"
    and "lagrange4 x0 x1 x2 x3 v0 v1 v2 v3 x1 = v1"
    and "lagrange4 x0 x1 x2 x3 v0 v1 v2 v3 x2 = v2"
    and "lagrange4 x0 x1 x2 x3 v0 v1 v2 v3 x3 = v3"
  using assms by (simp_all add: lagrange4_def)

lemma cubic1d_node:
  "sorted_wrt (<) xs \<Longrightarrow> length vs = length xs \<Longrightarrow> 4 \<le> length xs \<Longrightarrow> i < length xs \<Longrightarrow>
   cubic1d xs vs (xs ! i) = vs ! i"
proof (induction xs vs "xs ! i" arbitrary: i rule: cubic1d.induct)
  case (1 x0 x1 x2 x3 xs v0 v1 v2 v3 vs)
  have lt: "x0 < x1" "x1 < x2" "x2 < x3" using "1.prems"(1) by auto
  let ?X = "x0 # x1 # x2 # x3 # xs"
  let ?V = "v0 # v1 # v2 # v3 # vs"
  show ?case
  proof (cases "xs = [] \<or> ?X ! i \<le> x2")
    case True
    have "i < 4"
    proof (rule ccontr)
      assume "\<not> i < 4"
      then have i4: "4 \<le> i" by simp
      then have "xs \<noteq> []" using "1.prems"(4) by auto
      moreover have "x2 < ?X ! i"
        using sorted_wrt_nth_less [OF "1.prems"(1), of 2 i] i4 "1.prems"(4) by simp
      ultimately show False using True by simp
    qed
    then consider "i = 0" | "i = 1" | "i = 2" | "i = 3" by linarith
    then show ?thesis
    proof cases
      case 1 then show ?thesis using True lagrange4_nodes(1) [OF lt] by simp
    next
      case 2 then show ?thesis using True lagrange4_nodes(2) [OF lt] by simp
    next
      case 3 then show ?thesis using True lagrange4_nodes(3) [OF lt] by simp
    next
      case 4
      then have "xs = []" using True lt by simp
      then show ?thesis using 4 lagrange4_nodes(4) [OF lt] by simp
    qed
  next
    case False
    then have ne: "xs \<noteq> []" and gt: "x2 < ?X ! i" by auto
    have "0 < i"
    proof (rule ccontr)
      assume "\<not> 0 < i"
      then have "?X ! i = x0" by simp
      then show False using gt lt by simp
    qed
    then obtain k where k: "i = Suc k" by (cases i) auto
    have s': "sorted_wrt (<) (x1 # x2 # x3 # xs)" using "1.prems"(1) by simp
    have "cubic1d (x1 # x2 # x3 # xs) (v1 # v2 # v3 # vs) ((x1 # x2 # x3 # xs) ! k)
            = (v1 # v2 # v3 # vs) ! k"
      using "1.hyps" [of k] False s' "1.prems"(2,4) ne k by (cases xs) auto
    then show ?thesis using False k by simp
  qed
qed simp_all

lemma held_node:
  assumes "sorted_wrt (<) xs" "i < length xs"
  shows "held xs (xs ! i) = xs ! i"
proof -
  have ne: "xs \<noteq> []" using assms(2) by auto
  then obtain x0 rest where xs: "xs = x0 # rest" by (cases xs) auto
  have mem: "xs ! i \<in> set xs" using assms(2) by simp
  have lo: "Min (set xs) \<le> xs ! i" using mem by simp
  have hi: "xs ! i \<le> Max (set xs)" using mem by simp
  have a: "x0 \<le> xs ! i" using lo Min_increasing [OF assms(1) ne] xs by simp
  have b: "xs ! i \<le> last xs"
    using hi Max_increasing [OF assms(1) ne] ne by (simp add: last_conv_nth)
  show ?thesis using a b by (simp add: held_def xs)
qed

lemma interp2d_cubic_node:
  assumes "sorted_wrt (<) x" "sorted_wrt (<) y" "4 \<le> length x" "4 \<le> length y"
    and "length z = length y" "list_all (\<lambda>row. length row = length x) z"
    and "i < length x" "j < length y"
  shows "\<exists>S. interp2d_cubic x y z = Inr S \<and> S (x ! i) (y ! j) = z ! j ! i"
proof -
  let ?S = "\<lambda>u v. cubic1d y (map (\<lambda>row. cubic1d x row (held x u)) z) (held y v)"
  have fit: "interp2d_cubic x y z = Inr ?S"
    using assms(3,4,5,6) by (simp add: interp2d_cubic_def)
  have rows: "cubic1d x row (x ! i) = row ! i" if "row \<in> set z" for row
  proof -
    have "length row = length x" using assms(6) that by (simp add: list_all_iff)
    then show ?thesis using cubic1d_node [OF assms(1) _ assms(3) assms(7)] by simp
  qed
  have hx: "held x (x ! i) = x ! i" using held_node [OF assms(1) assms(7)] .
  have hy: "held y (y ! j) = y ! j" using held_node [OF assms(2) assms(8)] .
  have col: "map (\<lambda>row. cubic1d x row (x ! i)) z = map (\<lambda>row. row ! i) z"
    by (rule map_cong) (simp_all add: rows)
  have "cubic1d y (map (\<lambda>row. row ! i) z) (y ! j) = map (\<lambda>row. row ! i) z ! j"
    using cubic1d_node [OF assms(2) _ assms(4) assms(8)] assms(5) by simp
  also have "\<dots> = z ! j ! i" using assms(5,8) by simp
  finally have "?S (x ! i) (y ! j) = z ! j ! i"
    by (simp only: hx hy col)
  then show ?thesis using fit by blast
qed

lemma foldr_max_length:
  "a \<noteq> [] \<Longrightarrow> (\<And>row. row \<in> set a \<Longrightarrow> length row = k) \<Longrightarrow>
   foldr (\<lambda>xs. max (length xs)) a 0 = k"
proof (induction a)
  case Nil
  then show ?case by simp
next
  case (Cons a1 a2)
  show ?case
  proof (cases "a2 = []")
    case True
    then show ?thesis using Cons.prems(2) [of a1] by simp
  next
    case False
    have "foldr (\<lambda>xs. max (length xs)) a2 0 = k"
      using Cons.IH [OF False] Cons.prems(2) by simp
    then show ?thesis using Cons.prems(2) [of a1] by simp
  qed
qed

lemma transpose_rectangular:
  assumes "length a = n" "list_all (\<lambda>row. length row = k) a" "0 < n"
  shows "length (transpose a) = k"
    and "list_all (\<lambda>row. length row = n) (transpose a)"
    and "i < n \<Longrightarrow> j < k \<Longrightarrow> transpose a ! j ! i = a ! i ! j"
proof -
  have len: "\<And>row. row \<in> set a \<Longrightarrow> length row = k"
    using assms(2) by (simp add: list_all_iff)
  have ne: "a \<noteq> []" using assms(1,3) by auto
  have flt: "filter (\<lambda>ys. jj < length ys) a = a" if "jj < k" for jj
    using len that by (simp add: filter_id_conv)
  show lt: "length (transpose a) = k"
  proof -
    have "length (transpose a) = foldr (\<lambda>xs. max (length xs)) a 0"
      by (rule length_transpose)
    also have "\<dots> = k"
      using foldr_max_length [OF ne len] .
    finally show ?thesis .
  qed
  have nth: "transpose a ! jj = map (\<lambda>xs. xs ! jj) a" if "jj < k" for jj
    using nth_transpose [of jj a] lt that flt [OF that] by simp
  show "list_all (\<lambda>row. length row = n) (transpose a)"
    unfolding list_all_length using nth lt assms(1) by simp
  show "i < n \<Longrightarrow> j < k \<Longrightarrow> transpose a ! j ! i = a ! i ! j"
    using nth [of j] assms(1) by simp
qed

subsection \<open>The secant iteration and the cells of the example sweep\<close>

lemma bounded_Pc_cal:
  assumes "0 < o_f"
  shows "func_Pc_cal o_f Pc mox bounded_cstr Dt (9 / 10)
           = (if 12000000 < Pc then Inl ValueError else Inr (5400 * mox / (pi * Dt\<^sup>2)))"
proof (cases "12000000 < Pc")
  case True
  then show ?thesis by (simp add: func_Pc_cal_def bounded_cstr_def ebind_Inl)
next
  case False
  then have "bounded_cstr o_f (Pc * (1 / 1000000)) = saturating_cstr o_f (Pc * (1 / 1000000))"
    by (simp add: bounded_cstr_def saturating_cstr_def)
  then have "func_Pc_cal o_f Pc mox bounded_cstr Dt (9 / 10)
               = func_Pc_cal o_f Pc mox saturating_cstr Dt (9 / 10)"
    by (simp add: func_Pc_cal_def)
  then show ?thesis using False saturating_Pc_cal [OF assms] by simp
qed

lemma bounded_residual:
  assumes "0 < Pc" and "0 < mox"
  shows "iterat_func_Pc bounded_gen_func_cstr main_motor Pc mox Dt
           = (if 12000000 < Pc then Inl ValueError
              else Inr ((5400 * mox / (pi * Dt\<^sup>2) - Pc) / (5400 * mox / (pi * Dt\<^sup>2))))"
  unfolding iterat_func_Pc_def Let_def main_motor_fields bounded_gen_func_cstr_def ebind_Inr
    bounded_Pc_cal [OF main_motor_of_pos [OF assms]]
  by (simp add: ebind_def)

lemma secant_formula:
  assumes "v \<noteq> 0" and "u \<noteq> v" and "A \<noteq> 0"
  shows "(- (u / A) / (v / A) * (A - v) + (A - u)) / (1 - (u / A) / (v / A)) = (A :: real)"
proof -
  have r: "(u / A) / (v / A) = u / v" using assms(3) by simp
  have d: "1 - u / v = (v - u) / v" using assms(1) by (simp add: diff_divide_distrib)
  have n: "- (u / v) * (A - v) + (A - u) = A * (v - u) / v"
    using assms(1) by (simp add: field_simps)
  have vu: "v - u \<noteq> 0" using assms(2) by simp
  have "(A * (v - u) / v) / ((v - u) / v) = A"
    using assms(1) vu by simp
  then show ?thesis
    unfolding minus_divide_left [symmetric] r d n
    by (simp add: r d n)
qed


lemma secant_formula_points:
  assumes "pb \<noteq> A" and "pa \<noteq> pb" and "A \<noteq> 0"
  shows "(- ((A - pa) / A) / ((A - pb) / A) * pb + pa) / (1 - ((A - pa) / A) / ((A - pb) / A)) = (A :: real)"
  using secant_formula [of "A - pb" "A - pa" A] assms by simp

lemma secant_step_linear:
  assumes "A \<noteq> 0" and "pa \<noteq> pb" and "tol < \<bar>A - pb\<bar>" and "tol < \<bar>A - pa\<bar>" and "0 \<le> tol"
  shows "secant_loop g tol (Suc n) pa ((A - pa) / A) pb ((A - pb) / A)
           = ebind (g A) (\<lambda>q. secant_loop g tol n pb ((A - pb) / A) A q)"
proof -
  let ?q0 = "(A - pa) / A" and ?q1 = "(A - pb) / A"
  have nb: "pb \<noteq> A" using assms(3,5) by auto
  have na: "pa \<noteq> A" using assms(4,5) by auto
  have qne: "?q1 \<noteq> ?q0" using assms(1,2) by (simp add: divide_simps)
  have f1: "(- ?q0 / ?q1 * pb + pa) / (1 - ?q0 / ?q1) = A"
    using secant_formula_points [OF nb assms(2) assms(1)] .
  have f2: "(- ?q1 / ?q0 * pa + pb) / (1 - ?q1 / ?q0) = A"
    using secant_formula_points [OF na assms(2) [symmetric] assms(1)] .
  have p: "(if \<bar>?q1\<bar> > \<bar>?q0\<bar> then (- ?q0 / ?q1 * pb + pa) / (1 - ?q0 / ?q1)
            else (- ?q1 / ?q0 * pa + pb) / (1 - ?q1 / ?q0)) = A"
    using f1 f2 by simp
  have far: "\<not> \<bar>A - pb\<bar> \<le> tol" using assms(3) by simp
  show ?thesis
    unfolding secant_loop.simps Let_def p using qne far by simp
qed

lemma secant_last_step:
  assumes "q0 \<noteq> 0" and "0 \<le> tol"
  shows "secant_loop g tol (Suc n) p0 q0 A 0 = Inr A"
  using assms by simp

lemma secant_newton_linear:
  assumes "1000101 < A"
    and "f 1000000 (fst args) (snd args) = Inr ((A - 1000000) / A)"
    and "f (1000000 * (1 + 1 / 10000) + 1 / 10000) (fst args) (snd args)
           = Inr ((A - (1000000 * (1 + 1 / 10000) + 1 / 10000)) / A)"
  shows "f A (fst args) (snd args) = Inl e \<Longrightarrow>
           secant_newton f 1000000 10 (1 / 1000) args = Inl e"
    and "f A (fst args) (snd args) = Inr 0 \<Longrightarrow>
           secant_newton f 1000000 10 (1 / 1000) args = Inr A"
proof -
  let ?g = "\<lambda>p. f p (fst args) (snd args)"
  let ?p0 = "1000000 :: real"
  let ?p1 = "1000000 * (1 + 1 / 10000) + 1 / 10000 :: real"
  have A0: "A \<noteq> 0" using assms(1) by simp
  have ne: "?p0 \<noteq> ?p1" by simp
  have d0: "(1 / 1000) < \<bar>A - ?p0\<bar>" using assms(1) by simp
  have d1: "(1 / 1000) < \<bar>A - ?p1\<bar>" using assms(1) by simp
  have ten: "(10 :: nat) = Suc (Suc 8)" by simp
  have s01: "secant_loop ?g (1 / 1000) 10 ?p0 ((A - ?p0) / A) ?p1 ((A - ?p1) / A)
               = ebind (?g A) (\<lambda>q. secant_loop ?g (1 / 1000) (Suc 8) ?p1 ((A - ?p1) / A) A q)"
    unfolding ten by (rule secant_step_linear [OF A0 ne d1 d0]) simp
  have s10: "secant_loop ?g (1 / 1000) 10 ?p1 ((A - ?p1) / A) ?p0 ((A - ?p0) / A)
               = ebind (?g A) (\<lambda>q. secant_loop ?g (1 / 1000) (Suc 8) ?p0 ((A - ?p0) / A) A q)"
    unfolding ten by (rule secant_step_linear [OF A0 ne [symmetric] d0 d1]) simp
  have q0: "(A - ?p0) / A \<noteq> 0" using assms(1) by simp
  have q1: "(A - ?p1) / A \<noteq> 0" using assms(1) by simp
  have start: "secant_newton f 1000000 10 (1 / 1000) args
                 = (if \<bar>(A - ?p1) / A\<bar> < \<bar>(A - ?p0) / A\<bar>
                    then secant_loop ?g (1 / 1000) 10 ?p1 ((A - ?p1) / A) ?p0 ((A - ?p0) / A)
                    else secant_loop ?g (1 / 1000) 10 ?p0 ((A - ?p0) / A) ?p1 ((A - ?p1) / A))"
    unfolding secant_newton_def Let_def using assms(2,3) by (simp add: ebind_Inr)
  show "secant_newton f 1000000 10 (1 / 1000) args = Inl e" if "f A (fst args) (snd args) = Inl e"
    unfolding start s01 s10 that ebind_Inl by simp
  show "secant_newton f 1000000 10 (1 / 1000) args = Inr A" if "f A (fst args) (snd args) = Inr 0"
    unfolding start s01 s10 that ebind_Inr
    using secant_last_step [OF q0, of "1 / 1000" ?g 8 ?p0 A]
      secant_last_step [OF q1, of "1 / 1000" ?g 8 ?p1 A]
    by simp
qed


lemma brentq_same_sign:
  assumes "f a (fst args) (snd args) = Inr fa" "f b (fst args) (snd args) = Inr fb"
    "0 < fa" "0 < fb"
  shows "sign_brentq f a b maxiter xtol args = Inl ValueError"
  using assms by (simp add: sign_brentq_def ebind_def)

lemma cell_pressure_bounds:
  assumes "0 < K"
  shows "K / 4 < K / pi" and "K / pi \<le> K / 2"
proof -
  show "K / 4 < K / pi"
    using assms pi_less_4 pi_gt_zero by (intro divide_strict_left_mono) simp_all
  show "K / pi \<le> K / 2"
    using assms pi_ge_two by (intro divide_left_mono) simp_all
qed

lemma cell_converges:
  assumes "0 < mox" and "Dt \<noteq> 0"
    and "4000404 * Dt\<^sup>2 < 5400 * mox" and "5400 * mox \<le> 24000000 * Dt\<^sup>2"
  shows "newton stand_in_optimize (iterat_func_Pc bounded_gen_func_cstr main_motor)
           1000000 10 (1 / 1000) (mox, Dt) = Inr (5400 * mox / (pi * Dt\<^sup>2))"
    and "converge_Pc stand_in_optimize bounded_gen_func_cstr main_motor mox Dt 1000000
           = Inr (5400 * mox / (pi * Dt\<^sup>2))"
proof -
  define K where "K = 5400 * mox / Dt\<^sup>2"
  define A where "A = 5400 * mox / (pi * Dt\<^sup>2)"
  have d2: "0 < Dt\<^sup>2" using assms(2) by simp
  have K0: "0 < K" using assms(1) d2 by (simp add: K_def)
  have AK: "A = K / pi" by (simp add: A_def K_def)
  have "4000404 < K" using assms(3) d2 by (simp add: K_def pos_less_divide_eq)
  then have lo: "1000101 < A" using cell_pressure_bounds(1) [OF K0] unfolding AK by linarith
  have "K \<le> 24000000" using assms(4) d2 by (simp add: K_def pos_divide_le_eq)
  then have hi: "A \<le> 12000000" using cell_pressure_bounds(2) [OF K0] unfolding AK by linarith
  let ?f = "iterat_func_Pc bounded_gen_func_cstr main_motor"
  have r: "?f Pc mox Dt = Inr ((A - Pc) / A)" if "0 < Pc" "Pc \<le> 12000000" for Pc
    using bounded_residual [OF that(1) assms(1), of Dt] that(2) by (simp add: A_def)
  have r0: "?f 1000000 (fst (mox, Dt)) (snd (mox, Dt)) = Inr ((A - 1000000) / A)"
    using r [of 1000000] by simp
  have r1: "?f (1000000 * (1 + 1 / 10000) + 1 / 10000) (fst (mox, Dt)) (snd (mox, Dt))
              = Inr ((A - (1000000 * (1 + 1 / 10000) + 1 / 10000)) / A)"
    using r [of "1000000 * (1 + 1 / 10000) + 1 / 10000"] by simp
  have rA: "?f A (fst (mox, Dt)) (snd (mox, Dt)) = Inr 0"
    using r [of A] lo hi by simp
  have n: "secant_newton ?f 1000000 10 (1 / 1000) (mox, Dt) = Inr A"
    using secant_newton_linear(2) [where f = ?f and args = "(mox, Dt)" and A = A, OF lo r0 r1 rA] .
  show "newton stand_in_optimize ?f 1000000 10 (1 / 1000) (mox, Dt)
          = Inr (5400 * mox / (pi * Dt\<^sup>2))"
    using n by (simp add: stand_in_optimize_def A_def)
  show "converge_Pc stand_in_optimize bounded_gen_func_cstr main_motor mox Dt 1000000
          = Inr (5400 * mox / (pi * Dt\<^sup>2))"
    using n by (simp add: converge_Pc_def stand_in_optimize_def A_def)
qed

lemma cell_fails:
  assumes "0 < mox" and "Dt \<noteq> 0" and "48000000 * Dt\<^sup>2 \<le> 5400 * mox"
  shows "newton stand_in_optimize (iterat_func_Pc bounded_gen_func_cstr main_motor)
           1000000 10 (1 / 1000) (mox, Dt) = Inl ValueError"
    and "brentq stand_in_optimize (iterat_func_Pc bounded_gen_func_cstr main_motor)
           10000 10000000 50 (1 / 1000) (mox, Dt) = Inl ValueError"
    and "converge_Pc stand_in_optimize bounded_gen_func_cstr main_motor mox Dt 1000000
           = Inl ValueError"
proof -
  define K where "K = 5400 * mox / Dt\<^sup>2"
  define A where "A = 5400 * mox / (pi * Dt\<^sup>2)"
  have d2: "0 < Dt\<^sup>2" using assms(2) by simp
  have K0: "0 < K" using assms(1) d2 by (simp add: K_def)
  have AK: "A = K / pi" by (simp add: A_def K_def)
  have "48000000 \<le> K" using assms(3) d2 by (simp add: K_def pos_le_divide_eq)
  then have big: "12000000 < A" using cell_pressure_bounds(1) [OF K0] unfolding AK by linarith
  let ?f = "iterat_func_Pc bounded_gen_func_cstr main_motor"
  have r: "?f Pc mox Dt = Inr ((A - Pc) / A)" if "0 < Pc" "Pc \<le> 12000000" for Pc
    using bounded_residual [OF that(1) assms(1), of Dt] that(2) by (simp add: A_def)
  have r0: "?f 1000000 (fst (mox, Dt)) (snd (mox, Dt)) = Inr ((A - 1000000) / A)"
    using r [of 1000000] by simp
  have r1: "?f (1000000 * (1 + 1 / 10000) + 1 / 10000) (fst (mox, Dt)) (snd (mox, Dt))
              = Inr ((A - (1000000 * (1 + 1 / 10000) + 1 / 10000)) / A)"
    using r [of "1000000 * (1 + 1 / 10000) + 1 / 10000"] by simp
  have rA: "?f A (fst (mox, Dt)) (snd (mox, Dt)) = Inl ValueError"
    using bounded_residual [of A mox Dt] assms(1) big by simp
  have lo: "1000101 < A" using big by simp
  show n: "newton stand_in_optimize ?f 1000000 10 (1 / 1000) (mox, Dt) = Inl ValueError"
    using secant_newton_linear(1)
            [where f = ?f and args = "(mox, Dt)" and A = A and e = ValueError, OF lo r0 r1 rA]
    by (simp add: stand_in_optimize_def)
  have ra: "?f 10000 (fst (mox, Dt)) (snd (mox, Dt)) = Inr ((A - 10000) / A)"
    using r [of 10000] by simp
  have rb: "?f 10000000 (fst (mox, Dt)) (snd (mox, Dt)) = Inr ((A - 10000000) / A)"
    using r [of 10000000] by simp
  have pa: "0 < (A - 10000) / A" using big by simp
  have pb: "0 < (A - 10000000) / A" using big by simp
  show b: "brentq stand_in_optimize ?f 10000 10000000 50 (1 / 1000) (mox, Dt) = Inl ValueError"
    using brentq_same_sign [where f = ?f and args = "(mox, Dt)", OF ra rb pa pb]
    by (simp add: stand_in_optimize_def)
  show "converge_Pc stand_in_optimize bounded_gen_func_cstr main_motor mox Dt 1000000
          = Inl ValueError"
    using n b by (simp add: converge_Pc_def)
qed

lemma cells:
  "converge_Pc stand_in_optimize bounded_gen_func_cstr main_motor (1 / 100) (1 / 500) 1000000
     = Inr (13500000 / pi)"
  "converge_Pc stand_in_optimize bounded_gen_func_cstr main_motor (1 / 25) (1 / 500) 1000000
     = Inl ValueError"
  "converge_Pc stand_in_optimize bounded_gen_func_cstr main_motor (1 / 100) (7 / 2000) 1000000
     = Inr (216000000 / (49 * pi))"
  "converge_Pc stand_in_optimize bounded_gen_func_cstr main_motor (1 / 25) (7 / 2000) 1000000
     = Inr (864000000 / (49 * pi))"
proof -
  show "converge_Pc stand_in_optimize bounded_gen_func_cstr main_motor (1 / 100) (1 / 500) 1000000
          = Inr (13500000 / pi)"
    using cell_converges(2) [of "1 / 100" "1 / 500"] by (simp add: power2_eq_square)
  show "converge_Pc stand_in_optimize bounded_gen_func_cstr main_motor (1 / 25) (1 / 500) 1000000
          = Inl ValueError"
    using cell_fails(3) [of "1 / 25" "1 / 500"] by (simp add: power2_eq_square)
  show "converge_Pc stand_in_optimize bounded_gen_func_cstr main_motor (1 / 100) (7 / 2000) 1000000
          = Inr (216000000 / (49 * pi))"
    using cell_converges(2) [of "1 / 100" "7 / 2000"] by (simp add: power2_eq_square)
  show "converge_Pc stand_in_optimize bounded_gen_func_cstr main_motor (1 / 25) (7 / 2000) 1000000
          = Inr (864000000 / (49 * pi))"
    using cell_converges(2) [of "1 / 25" "7 / 2000"] by (simp add: power2_eq_square)
qed

subsection \<open>The property value of a folder, and the slopes\<close>

lemma property_value_folder:
  assumes "files = (n0, t0) # others" and "map_of files param_name = Some t"
  shows "property_value interp2d (Some files) param_name extraporate o_f Pc
           = ebind (interp2d (df_index t0) (df_columns t0) (transpose (df_body t)))
               (\<lambda>S. func S (df_index t0) extraporate o_f Pc)"
proof -
  have init: "Read_datset_init (Some files)
                = Inr \<lparr>self_fld_path = Some files, self_of = Some (df_index t0),
                       self_Pc = Some (df_columns t0)\<rparr>"
    unfolding assms(1) by (simp add: Read_datset_init_def get_flist_def getitem_def ebind_def)
  have grid: "gen_func_grid \<lparr>self_fld_path = Some files, self_of = Some (df_index t0),
                             self_Pc = Some (df_columns t0)\<rparr> param_name
                = Inr (df_index t0, df_columns t0, df_body t)"
    using assms(2) by (simp add: gen_func_grid_def read_csv_def ebind_def)
  show ?thesis
    unfolding property_value_def init ebind_Inr gen_func_def grid
    by (simp add: ebind_def split: sum.splits)
qed

lemma three_point_equal_steps:
  assumes "h \<noteq> 0"
  shows "spec_three_point_slope f0 f1 f2 x0 (x0 + h) (x0 + 2 * h) = (- 3 * f0 + 4 * f1 - f2) / (2 * h)"
    and "spec_three_point_slope f0 f1 f2 x0 (x0 - h) (x0 - 2 * h) = (f2 - 4 * f1 + 3 * f0) / (2 * h)"
proof -
  have a: "f0 * (2 * x0 - (x0 + h) - (x0 + 2 * h)) / ((x0 - (x0 + h)) * (x0 - (x0 + 2 * h)))
             = - 3 * f0 / (2 * h)"
    using assms by (simp add: field_simps)
  have b: "f1 * (x0 - (x0 + 2 * h)) / ((x0 + h - x0) * (x0 + h - (x0 + 2 * h))) = 4 * f1 / (2 * h)"
    using assms by (simp add: field_simps)
  have c: "f2 * (x0 - (x0 + h)) / ((x0 + 2 * h - x0) * (x0 + 2 * h - (x0 + h))) = - f2 / (2 * h)"
    using assms by (simp add: field_simps)
  show "spec_three_point_slope f0 f1 f2 x0 (x0 + h) (x0 + 2 * h) = (- 3 * f0 + 4 * f1 - f2) / (2 * h)"
    unfolding spec_three_point_slope_def a b c
    by (simp add: add_divide_distrib diff_divide_distrib)
  have a': "f0 * (2 * x0 - (x0 - h) - (x0 - 2 * h)) / ((x0 - (x0 - h)) * (x0 - (x0 - 2 * h)))
             = 3 * f0 / (2 * h)"
    using assms by (simp add: field_simps)
  have b': "f1 * (x0 - (x0 - 2 * h)) / ((x0 - h - x0) * (x0 - h - (x0 - 2 * h))) = - 4 * f1 / (2 * h)"
    using assms by (simp add: field_simps)
  have c': "f2 * (x0 - (x0 - h)) / ((x0 - 2 * h - x0) * (x0 - 2 * h - (x0 - h))) = f2 / (2 * h)"
    using assms by (simp add: field_simps)
  show "spec_three_point_slope f0 f1 f2 x0 (x0 - h) (x0 - 2 * h) = (f2 - 4 * f1 + 3 * f0) / (2 * h)"
    unfolding spec_three_point_slope_def a' b' c'
    by (simp add: add_divide_distrib diff_divide_distrib)
qed

lemma func_below_linear:
  assumes "3 \<le> length ofs"
  shows "func_below (map g ofs) ofs (ExName ''linear'') o_f p
           = Inr (Some ((- 3 * g (ofs ! 0) + 4 * g (ofs ! 1) - g (ofs ! 2)) / (2 * (ofs ! 1 - ofs ! 0))
                          * (o_f - Min (set ofs)) + g (ofs ! 0)))"
proof -
  have b0: "getitem (map g ofs) 0 = Inr (g (ofs ! 0))"
    using assms by (auto simp add: getitem_def)
  show ?thesis
    unfolding func_below_def diff_begin_three [OF assms] ebind_Inr Let_def b0
    by (simp add: extrapfunc_linear_def)
qed

lemma func_above_linear:
  assumes "3 \<le> length ofs"
  shows "func_above (map g ofs) ofs (ExName ''linear'') o_f p
           = Inr (Some ((g (ofs ! (length ofs - 3)) - 4 * g (ofs ! (length ofs - 2))
                           + 3 * g (ofs ! (length ofs - 1)))
                          / (2 * (ofs ! (length ofs - 1) - ofs ! (length ofs - 2)))
                          * (o_f - Max (set ofs)) + g (ofs ! (length ofs - 1))))"
proof -
  have b1: "getitem (map g ofs) (int (length (map g ofs)) - 1) = Inr (g (ofs ! (length ofs - 1)))"
    using getitem_from_end [of 1 "map g ofs"] assms by simp
  show ?thesis
    unfolding func_above_def diff_end_three [OF assms] ebind_Inr Let_def b1
    by (simp add: extrapfunc_linear_def)
qed

section \<open>Claims about the interpolating function\<close>

text \<open>
  Claim C4, as stated, fails on a grid whose mixture ratios are not equally spaced. The
  program weighs the three values by \<open>-3, 4, -1\<close> over twice the first step, which is
  the three-point estimate only when the second step equals the first. Over the ratios
  \<open>[0, 1, 3, 4]\<close> and the table that holds the ratio itself, whose slope is \<open>1\<close>, it
  takes \<open>1/2\<close> for the slope and returns \<open>-1/2\<close> at \<open>of = -1\<close>; the three-point
  estimate is \<open>1\<close> and the claimed value \<open>-1\<close>.
\<close>

theorem unequal_spacing_slope_is_not_the_estimate:
  "func ratio_surface [0, 1, 3, 4] (ExName ''linear'') (- 1) 2000000 = Inr (Some (- (1 / 2)))
   \<and> property_value interp2d_cubic (Some ratio_folder) ''CSTAR'' (ExName ''linear'') (- 1) 2000000
       = Inr (Some (- (1 / 2)))
   \<and> spec_slope_first_three ratio_surface 2 [0, 1, 3, 4] * (- 1 - Min (set [0, 1, 3, 4]))
       + func_within ratio_surface (Min (set [0, 1, 3, 4])) 2 = - 1"
  by (simp add: func_def func_below_def diff_begin_def getitem_def ebind_def extrapfunc_linear_def
      ratio_surface_def spec_slope_first_three_def spec_three_point_slope_def func_within_def
      property_value_def ratio_folder_def ratio_table_def interp2d_cubic_def Read_datset_init_def
      get_flist_def gen_func_def gen_func_grid_def read_csv_def held_def lagrange4_def)

text \<open>
  Claim C4, amended. On a grid of at least three strictly increasing mixture ratios
  whose first three ratios are equally spaced, with the linear strategy, the value for
  an O/F below the smallest grid ratio is \<open>slope * (of - of.min()) + value_at(of.min(), pc)\<close>,
  the slope being the one-sided three-point estimate over the in-range surface at the
  first three grid ratios; where the last three ratios are equally spaced, the value
  above the largest grid ratio is the mirror formula over the last three grid ratios,
  anchored at \<open>of.max()\<close>. The value at the boundary itself is the in-range one.
\<close>

theorem equally_spaced_three_point_formula:
  assumes "3 \<le> length ofs" and "sorted_wrt (<) ofs"
  shows "func S ofs (ExName ''linear'') (Min (set ofs)) Pc
           = Inr (Some (func_within S (Min (set ofs)) (Pc * (1 / 1000000))))
       \<and> (o_f < Min (set ofs) \<and> ofs ! 2 - ofs ! 1 = ofs ! 1 - ofs ! 0 \<longrightarrow>
            func S ofs (ExName ''linear'') o_f Pc
              = Inr (Some (spec_slope_first_three S (Pc * (1 / 1000000)) ofs
                             * (o_f - Min (set ofs))
                           + func_within S (Min (set ofs)) (Pc * (1 / 1000000)))))
       \<and> func S ofs (ExName ''linear'') (Max (set ofs)) Pc
           = Inr (Some (func_within S (Max (set ofs)) (Pc * (1 / 1000000))))
       \<and> (Max (set ofs) < o_f
            \<and> ofs ! (length ofs - 1) - ofs ! (length ofs - 2)
                = ofs ! (length ofs - 2) - ofs ! (length ofs - 3) \<longrightarrow>
            func S ofs (ExName ''linear'') o_f Pc
              = Inr (Some (spec_slope_last_three S (Pc * (1 / 1000000)) ofs
                             * (o_f - Max (set ofs))
                           + func_within S (Max (set ofs)) (Pc * (1 / 1000000)))))"
proof -
  let ?p = "Pc * (1 / 1000000)"
  let ?g = "\<lambda>x. S x ?p"
  let ?n = "length ofs"
  have ne: "ofs \<noteq> []" using assms(1) by auto
  have mm: "Min (set ofs) \<le> Max (set ofs)" using ne by simp
  have mn: "Min (set ofs) = ofs ! 0" using Min_increasing [OF assms(2) ne] .
  have mx: "Max (set ofs) = ofs ! (?n - 1)" using Max_increasing [OF assms(2) ne] .
  have at_min: "func S ofs (ExName ''linear'') (Min (set ofs)) Pc
                  = Inr (Some (func_within S (Min (set ofs)) ?p))"
    using func_in_range [OF ne, of "Min (set ofs)"] mm by simp
  have at_max: "func S ofs (ExName ''linear'') (Max (set ofs)) Pc
                  = Inr (Some (func_within S (Max (set ofs)) ?p))"
    using func_in_range [OF ne, of "Max (set ofs)"] mm by simp
  have below: "func S ofs (ExName ''linear'') o_f Pc
      = Inr (Some (spec_slope_first_three S ?p ofs * (o_f - Min (set ofs))
                   + func_within S (Min (set ofs)) ?p))"
    if lt: "o_f < Min (set ofs)" and eq: "ofs ! 2 - ofs ! 1 = ofs ! 1 - ofs ! 0"
  proof -
    define h where "h = ofs ! 1 - ofs ! 0"
    have "ofs ! 0 < ofs ! 1"
      using sorted_wrt_nth_less [OF assms(2), of 0 1] assms(1) by simp
    then have h0: "h \<noteq> 0" by (simp add: h_def)
    have x1: "ofs ! 1 = ofs ! 0 + h" by (simp add: h_def)
    have x2: "ofs ! 2 = ofs ! 0 + 2 * h" using eq by (simp add: h_def)
    have slope: "spec_slope_first_three S ?p ofs
                   = (- 3 * ?g (ofs ! 0) + 4 * ?g (ofs ! 1) - ?g (ofs ! 2)) / (2 * h)"
      unfolding spec_slope_first_three_def func_within_def
      using three_point_equal_steps(1) [OF h0, of "?g (ofs ! 0)" "?g (ofs ! 1)" "?g (ofs ! 2)" "ofs ! 0"]
      by (simp only: x1 [symmetric] x2 [symmetric])
    show ?thesis
      unfolding func_is_below [OF ne lt] func_below_linear [OF assms(1)] slope
      by (simp add: h_def func_within_def mn)
  qed
  have above: "func S ofs (ExName ''linear'') o_f Pc
      = Inr (Some (spec_slope_last_three S ?p ofs * (o_f - Max (set ofs))
                   + func_within S (Max (set ofs)) ?p))"
    if gt: "Max (set ofs) < o_f"
      and eq: "ofs ! (?n - 1) - ofs ! (?n - 2) = ofs ! (?n - 2) - ofs ! (?n - 3)"
  proof -
    define h where "h = ofs ! (?n - 1) - ofs ! (?n - 2)"
    have "ofs ! (?n - 2) < ofs ! (?n - 1)"
      using sorted_wrt_nth_less [OF assms(2), of "?n - 2" "?n - 1"] assms(1) by simp
    then have h0: "h \<noteq> 0" by (simp add: h_def)
    have x1: "ofs ! (?n - 2) = ofs ! (?n - 1) - h" by (simp add: h_def)
    have x2: "ofs ! (?n - 3) = ofs ! (?n - 1) - 2 * h" using eq by (simp add: h_def)
    have slope: "spec_slope_last_three S ?p ofs
                   = (?g (ofs ! (?n - 3)) - 4 * ?g (ofs ! (?n - 2)) + 3 * ?g (ofs ! (?n - 1))) / (2 * h)"
      unfolding spec_slope_last_three_def func_within_def Let_def
      using three_point_equal_steps(2)
              [OF h0, of "?g (ofs ! (?n - 1))" "?g (ofs ! (?n - 2))" "?g (ofs ! (?n - 3))" "ofs ! (?n - 1)"]
      by (simp only: x1 [symmetric] x2 [symmetric])
    have nlt: "\<not> o_f < Min (set ofs)" using gt mm by linarith
    show ?thesis
      unfolding func_is_above [OF ne nlt gt] func_above_linear [OF assms(1)] slope
      by (simp add: h_def func_within_def mx)
  qed
  show ?thesis using at_min at_max below above by blast
qed

theorem equally_spaced_three_point_formula_witness:
  "func square_surface [1, 2, 3, 4] (ExName ''linear'') 0 2000000 = Inr (Some 1)
   \<and> func square_surface [1, 2, 3, 4] (ExName ''linear'') 5 2000000 = Inr (Some 26)"
proof -
  have h1: "3 \<le> length [1, 2, 3, 4 :: real]" by simp
  have h2: "sorted_wrt (<) [1, 2, 3, 4 :: real]" by simp
  show ?thesis
    using equally_spaced_three_point_formula [OF h1 h2, of square_surface 2000000 0] equally_spaced_three_point_formula [OF h1 h2, of square_surface 2000000 5]
    by (simp add: spec_slope_first_three_def spec_slope_last_three_def spec_three_point_slope_def
        func_within_def square_surface_def)
qed

text \<open>
  Claim C5. On a grid of at least three strictly increasing mixture ratios and for any
  pressure, the linear-extrapolation branch taken at exactly \<open>of.min()\<close>
  (respectively \<open>of.max()\<close>) gives the value that the function itself, which takes its
  in-range branch there, returns at that boundary.
\<close>

theorem extrapolation_boundary_continuity:
  assumes "3 \<le> length ofs" and "sorted_wrt (<) ofs"
  shows "func_below (map (\<lambda>x. S x (Pc * (1 / 1000000))) ofs) ofs (ExName ''linear'')
           (Min (set ofs)) (Pc * (1 / 1000000))
           = Inr (Some (func_within S (Min (set ofs)) (Pc * (1 / 1000000))))
       \<and> func S ofs (ExName ''linear'') (Min (set ofs)) Pc
           = Inr (Some (func_within S (Min (set ofs)) (Pc * (1 / 1000000))))
       \<and> func_above (map (\<lambda>x. S x (Pc * (1 / 1000000))) ofs) ofs (ExName ''linear'')
           (Max (set ofs)) (Pc * (1 / 1000000))
           = Inr (Some (func_within S (Max (set ofs)) (Pc * (1 / 1000000))))
       \<and> func S ofs (ExName ''linear'') (Max (set ofs)) Pc
           = Inr (Some (func_within S (Max (set ofs)) (Pc * (1 / 1000000))))"
proof -
  let ?p = "Pc * (1 / 1000000)"
  let ?g = "\<lambda>x. S x ?p"
  have ne: "ofs \<noteq> []" using assms(1) by auto
  have mm: "Min (set ofs) \<le> Max (set ofs)" using ne by simp
  have mn: "Min (set ofs) = ofs ! 0" using Min_increasing [OF assms(2) ne] .
  have mx: "Max (set ofs) = ofs ! (length ofs - 1)" using Max_increasing [OF assms(2) ne] .
  have b0: "getitem (map ?g ofs) 0 = Inr (?g (ofs ! 0))"
    using ne by (simp add: getitem_def)
  have b1: "getitem (map ?g ofs) (int (length (map ?g ofs)) - 1) = Inr (?g (ofs ! (length ofs - 1)))"
    using getitem_from_end [of 1 "map ?g ofs"] assms(1) by simp
  have lo: "func_below (map ?g ofs) ofs (ExName ''linear'') (Min (set ofs)) ?p
              = Inr (Some (func_within S (Min (set ofs)) ?p))"
    unfolding func_below_def diff_begin_three [OF assms(1)] ebind_Inr Let_def b0
    by (simp add: extrapfunc_linear_def func_within_def mn)
  have hi: "func_above (map ?g ofs) ofs (ExName ''linear'') (Max (set ofs)) ?p
              = Inr (Some (func_within S (Max (set ofs)) ?p))"
    unfolding func_above_def diff_end_three [OF assms(1)] ebind_Inr Let_def b1
    by (simp add: extrapfunc_linear_def func_within_def mx)
  have at_min: "func S ofs (ExName ''linear'') (Min (set ofs)) Pc = Inr (Some (func_within S (Min (set ofs)) ?p))"
    using func_in_range [OF ne, of "Min (set ofs)"] mm by simp
  have at_max: "func S ofs (ExName ''linear'') (Max (set ofs)) Pc = Inr (Some (func_within S (Max (set ofs)) ?p))"
    using func_in_range [OF ne, of "Max (set ofs)"] mm by simp
  show ?thesis using lo hi at_min at_max by blast
qed

theorem extrapolation_boundary_continuity_witness:
  "func_below (map (\<lambda>x. square_surface x 2) [1, 2, 3]) [1, 2, 3] (ExName ''linear'') 1 2 = Inr (Some 3)
   \<and> func square_surface [1, 2, 3] (ExName ''linear'') 1 2000000 = Inr (Some 3)
   \<and> func_above (map (\<lambda>x. square_surface x 2) [1, 2, 3]) [1, 2, 3] (ExName ''linear'') 3 2 = Inr (Some 11)
   \<and> func square_surface [1, 2, 3] (ExName ''linear'') 3 2000000 = Inr (Some 11)"
proof -
  have h1: "3 \<le> length [1, 2, 3 :: real]" by simp
  have h2: "sorted_wrt (<) [1, 2, 3 :: real]" by simp
  show ?thesis
    using extrapolation_boundary_continuity [OF h1 h2, of square_surface 2000000]
    by (simp add: func_within_def square_surface_def)
qed



text \<open>
  Claim C10. With a strategy name other than \<^verbatim>\<open>"linear"\<close>, an evaluation at an O/F
  outside the range of a non-empty grid never returns: it raises. On a grid of at least
  three mixture ratios the slope is computed, no branch assigns \<^verbatim>\<open>val\<close>, and the
  error is the unbound local variable; on a smaller grid the slope computation may
  raise IndexError before that.
\<close>

theorem other_strategy_never_returns:
  assumes "s \<noteq> ''linear''" and "ofs \<noteq> []"
    and "o_f < Min (set ofs) \<or> Max (set ofs) < o_f"
  shows "(func S ofs (ExName s) o_f Pc = Inl UnboundLocalError
          \<or> func S ofs (ExName s) o_f Pc = Inl IndexError)
       \<and> (3 \<le> length ofs \<longrightarrow> func S ofs (ExName s) o_f Pc = Inl UnboundLocalError)"
proof -
  let ?p = "Pc * (1 / 1000000)"
  let ?c = "map (\<lambda>x. S x ?p) ofs"
  have mm: "Min (set ofs) \<le> Max (set ofs)" using assms(2) by simp
  have gi: "getitem xs i = Inl IndexError \<or> (\<exists>v. getitem xs i = Inr v)" for xs :: "real list" and i
    by (simp add: getitem_def Let_def)
  have lo: "func_below ?c ofs (ExName s) o_f ?p = Inl UnboundLocalError
          \<or> func_below ?c ofs (ExName s) o_f ?p = Inl IndexError"
    using assms(1) gi [of ?c 0] gi [of ?c 1] gi [of ?c 2] gi [of ofs 1] gi [of ofs 0]
    unfolding func_below_def diff_begin_def Let_def
    by (auto simp add: ebind_def)
  have hi: "func_above ?c ofs (ExName s) o_f ?p = Inl UnboundLocalError
          \<or> func_above ?c ofs (ExName s) o_f ?p = Inl IndexError"
    using assms(1) gi [of ?c "int (length ?c) - 3"] gi [of ?c "int (length ?c) - 2"]
      gi [of ?c "int (length ?c) - 1"] gi [of ofs "int (length ofs) - 1"]
      gi [of ofs "int (length ofs) - 2"]
    unfolding func_above_def diff_end_def Let_def
    by (auto simp add: ebind_def)
  have lo3: "func_below ?c ofs (ExName s) o_f ?p = Inl UnboundLocalError" if "3 \<le> length ofs"
  proof -
    have "getitem ?c 0 = Inr (S (ofs ! 0) ?p)" using that by (auto simp add: getitem_def)
    then show ?thesis
      unfolding func_below_def diff_begin_three [OF that] ebind_Inr Let_def
      using assms(1) by (simp add: ebind_Inr)
  qed
  have hi3: "func_above ?c ofs (ExName s) o_f ?p = Inl UnboundLocalError" if "3 \<le> length ofs"
  proof -
    have "getitem ?c (int (length ?c) - 1) = Inr (S (ofs ! (length ofs - 1)) ?p)"
      using getitem_from_end [of 1 ?c] that by simp
    then show ?thesis
      unfolding func_above_def diff_end_three [OF that] ebind_Inr Let_def
      using assms(1) by (simp add: ebind_Inr)
  qed
  show ?thesis
  proof (cases "o_f < Min (set ofs)")
    case True
    show ?thesis unfolding func_is_below [OF assms(2) True] using lo lo3 by blast
  next
    case False
    then have up: "Max (set ofs) < o_f" using assms(3) by simp
    show ?thesis unfolding func_is_above [OF assms(2) False up] using hi hi3 by blast
  qed
qed

theorem other_strategy_never_returns_witness:
  "func ratio_surface [1, 2, 3] (ExName ''exp'') 0 1000000 = Inl UnboundLocalError
   \<and> func ratio_surface [1, 2, 3] (ExName ''power'') 4 1000000 = Inl UnboundLocalError"
proof -
  have n: "[1, 2, 3 :: real] \<noteq> []" by simp
  have a: "''exp'' \<noteq> ''linear''" "''power'' \<noteq> ''linear''" by simp_all
  have lo: "0 < Min (set [1, 2, 3 :: real]) \<or> Max (set [1, 2, 3 :: real]) < 0" by simp
  have hi: "4 < Min (set [1, 2, 3 :: real]) \<or> Max (set [1, 2, 3 :: real]) < 4" by simp
  show ?thesis
    using other_strategy_never_returns [OF a(1) n lo] other_strategy_never_returns [OF a(2) n hi]
    by simp
qed

text \<open>
  Claim C8, as stated, fails: the function scales its pressure argument by
  \<^verbatim>\<open>1.0e-6\<close> before it evaluates the fitted surface, so at the grid node
  \<open>(of[0], pc[1]) = (1, 2)\<close> of the pressure table, whose stored value is \<open>2\<close>, it
  evaluates the surface at the pressure \<open>2e-6\<close>, below the pressure axis, and returns
  \<open>1\<close>.
\<close>

theorem node_pressure_is_rescaled:
  "df_index pressure_table ! 0 = 1 \<and> df_columns pressure_table ! 1 = 2
   \<and> df_body pressure_table ! 0 ! 1 = 2
   \<and> property_value interp2d_cubic (Some pressure_folder) ''CSTAR'' (ExName ''linear'') 1 2
       = Inr (Some 1)"
  by (simp add: pressure_table_def property_value_def pressure_folder_def
      interp2d_cubic_def Read_datset_init_def get_flist_def getitem_def ebind_def gen_func_def
      gen_func_grid_def read_csv_def func_def func_within_def held_def lagrange4_def)

text \<open>
  Claim C8, amended. For a table in the shape of its axes, over at least four strictly
  increasing mixture ratios and pressures, the function built for it returns at
  \<open>(of[i], 1e6 * pc[j])\<close>, the grid node with its pressure in Pa for an axis in MPa,
  the stored \<open>value[i][j]\<close>. The axes are those of the first listed table.
\<close>

theorem node_value_at_pascal_pressure:
  assumes "files = (n0, t0) # others"
    and "map_of files param_name = Some t"
    and "sorted_wrt (<) (df_index t0)" and "sorted_wrt (<) (df_columns t0)"
    and "4 \<le> length (df_index t0)" and "4 \<le> length (df_columns t0)"
    and "length (df_body t) = length (df_index t0)"
    and "list_all (\<lambda>row. length row = length (df_columns t0)) (df_body t)"
    and "i < length (df_index t0)" and "j < length (df_columns t0)"
  shows "property_value interp2d_cubic (Some files) param_name extraporate
           (df_index t0 ! i) (1000000 * df_columns t0 ! j)
           = Inr (Some (df_body t ! i ! j))"
proof -
  let ?ofs = "df_index t0" and ?pcs = "df_columns t0" and ?z = "transpose (df_body t)"
  have n0: "0 < length ?ofs" using assms(5) by linarith
  have tr: "length ?z = length ?pcs" "list_all (\<lambda>row. length row = length ?ofs) ?z"
           "?z ! j ! i = df_body t ! i ! j"
    using transpose_rectangular [OF assms(7,8) n0] assms(9,10) by simp_all
  obtain S where S: "interp2d_cubic ?ofs ?pcs ?z = Inr S" "S (?ofs ! i) (?pcs ! j) = ?z ! j ! i"
    using interp2d_cubic_node [OF assms(3,4,5,6) tr(1,2) assms(9,10)] by blast
  have ne: "?ofs \<noteq> []" using assms(9) by auto
  have mem: "?ofs ! i \<in> set ?ofs" using assms(9) by simp
  have lo: "\<not> ?ofs ! i < Min (set ?ofs)" using mem by (simp add: not_less)
  have hi: "\<not> Max (set ?ofs) < ?ofs ! i" using mem by (simp add: not_less)
  have "func S ?ofs extraporate (?ofs ! i) (1000000 * ?pcs ! j)
          = Inr (Some (func_within S (?ofs ! i) (1000000 * ?pcs ! j * (1 / 1000000))))"
    using func_in_range [OF ne lo hi] .
  then have "func S ?ofs extraporate (?ofs ! i) (1000000 * ?pcs ! j)
          = Inr (Some (df_body t ! i ! j))"
    by (simp add: func_within_def S(2) tr(3))
  then show ?thesis
    unfolding property_value_folder [OF assms(1,2)] S(1) ebind_Inr .
qed

theorem node_value_at_pascal_pressure_witness:
  "property_value interp2d_cubic (Some pressure_folder) ''CSTAR'' (ExName ''linear'') 1 2000000
     = Inr (Some 2)"
proof -
  have a: "pressure_folder = (''CSTAR'', pressure_table) # []"
    by (simp add: pressure_folder_def)
  have b: "map_of pressure_folder ''CSTAR'' = Some pressure_table"
    by (simp add: pressure_folder_def)
  have c: "sorted_wrt (<) (df_index pressure_table)" "sorted_wrt (<) (df_columns pressure_table)"
          "4 \<le> length (df_index pressure_table)" "4 \<le> length (df_columns pressure_table)"
          "length (df_body pressure_table) = length (df_index pressure_table)"
          "list_all (\<lambda>row. length row = length (df_columns pressure_table)) (df_body pressure_table)"
          "0 < length (df_index pressure_table)" "1 < length (df_columns pressure_table)"
    by (simp_all add: pressure_table_def)
  show ?thesis
    using node_value_at_pascal_pressure [where files = pressure_folder and param_name = "''CSTAR''"
        and extraporate = "ExName ''linear''", OF a b c]
    by (simp add: pressure_table_def)
qed

section \<open>Claims about the grid loader\<close>

text \<open>
  Claim C9, as stated, fails in its second half: reading the table \<^verbatim>\<open>T_c\<close> returns
  the body of that table only, and the axes that go with it are those which the
  instance has read from the first listed table, not those of \<^verbatim>\<open>T_c\<close>.
\<close>

theorem axes_not_of_the_named_table:
  "Read_datset_init (Some two_tables) = Inr two_tables_inst
   \<and> read_csv two_tables_inst ''T_c'' = Inr [[7, 8], [9, 10]]
   \<and> gen_func_grid two_tables_inst ''T_c'' = Inr ([1, 2], [10, 20], [[7, 8], [9, 10]])
   \<and> spec_load two_tables ''T_c'' = Inr ([5, 6], [30, 40], [[7, 8], [9, 10]])"
  by (simp add: Read_datset_init_def two_tables_def two_tables_inst_def get_flist_def
      getitem_def ebind_def read_csv_def gen_func_grid_def spec_load_def)

text \<open>
  Claim C9, amended. On an instance that was built, reading a property name that has
  no table file ends in \<^verbatim>\<open>sys.exit(1)\<close>, the SystemExit exception, which the loader
  does not catch; a missing folder behaves the same. Reading a name that has a table
  returns the body of that table alone; the row and column axes used with it are those
  of the first listed table of the folder, read when the instance was built.
\<close>

theorem read_csv_body_or_exit:
  assumes "Read_datset_init fld_path = Inr self"
  shows "(fld_path = None \<longrightarrow> read_csv self param_name = Inl (SystemExit 1))
       \<and> (\<forall>files. fld_path = Some files \<longrightarrow>
            (map_of files param_name = None \<longrightarrow> read_csv self param_name = Inl (SystemExit 1))
          \<and> (\<forall>t. map_of files param_name = Some t \<longrightarrow>
                 read_csv self param_name = Inr (df_body t)
               \<and> gen_func_grid self param_name
                   = Inr (df_index (snd (hd files)), df_columns (snd (hd files)), df_body t)))"
proof (cases fld_path)
  case None
  then have "self = \<lparr>self_fld_path = None, self_of = None, self_Pc = None\<rparr>"
    using assms by (simp add: Read_datset_init_def)
  then show ?thesis using None by (simp add: read_csv_def)
next
  case (Some files)
  have s: "self = \<lparr>self_fld_path = Some files,
                  self_of = Some (df_index (snd (hd files))),
                  self_Pc = Some (df_columns (snd (hd files)))\<rparr>"
    using Read_datset_init_Some(2) assms Some by simp
  show ?thesis
    unfolding Some s by (simp add: read_csv_def gen_func_grid_def ebind_def)
qed

theorem read_csv_body_or_exit_witness:
  "read_csv two_tables_inst ''GAMMAs'' = Inl (SystemExit 1)
   \<and> read_csv two_tables_inst ''CSTAR'' = Inr [[1, 2], [3, 4]]
   \<and> gen_func_grid two_tables_inst ''T_c'' = Inr ([1, 2], [10, 20], [[7, 8], [9, 10]])
   \<and> read_csv \<lparr>self_fld_path = None, self_of = None, self_Pc = None\<rparr> ''CSTAR''
       = Inl (SystemExit 1)"
proof -
  have i: "Read_datset_init (Some two_tables) = Inr two_tables_inst"
    by (simp add: Read_datset_init_def two_tables_def two_tables_inst_def get_flist_def
        getitem_def ebind_def)
  have n: "Read_datset_init None = Inr \<lparr>self_fld_path = None, self_of = None, self_Pc = None\<rparr>"
    by (simp add: Read_datset_init_def)
  have a: "map_of two_tables ''GAMMAs'' = None" by (simp add: two_tables_def)
  have b: "map_of two_tables ''CSTAR''
             = Some \<lparr>df_index = [1, 2], df_columns = [10, 20], df_body = [[1, 2], [3, 4]]\<rparr>"
    by (simp add: two_tables_def)
  have c: "map_of two_tables ''T_c''
             = Some \<lparr>df_index = [5, 6], df_columns = [30, 40], df_body = [[7, 8], [9, 10]]\<rparr>"
    by (simp add: two_tables_def)
  have h: "snd (hd two_tables)
             = \<lparr>df_index = [1, 2], df_columns = [10, 20], df_body = [[1, 2], [3, 4]]\<rparr>"
    by (simp add: two_tables_def)
  show ?thesis
    using read_csv_body_or_exit [OF i, of "''GAMMAs''"] read_csv_body_or_exit [OF i, of "''CSTAR''"]
      read_csv_body_or_exit [OF i, of "''T_c''"] read_csv_body_or_exit [OF n, of "''CSTAR''"]
      a b c h
    by simp
qed
section \<open>Claims about the solver\<close>

text \<open>
  Claim C2, as stated, fails: the characteristic-velocity function is not evaluated at
  \<open>(of, Pc)\<close> but at \<open>(of, Pc * 1.0e-6)\<close>. With a function that returns its pressure
  argument the two differ: at \<open>Pc = 1e6\<close> the program's predicted pressure is
  \<open>2 / pi\<close>, the claim's is \<open>2000000 / pi\<close>.
\<close>

theorem func_Pc_cal_rescales_pressure:
  "func_Pc_cal 1 1000000 1 pressure_cstr 2 1
     \<noteq> Inr (spec_predictedChamberPressure 1 1000000 1 pressure_velocity 2 1)"
  by (simp add: func_Pc_cal_def pressure_cstr_def pressure_velocity_def ebind_def getitem_def
      spec_predictedChamberPressure_def)

text \<open>
  Claim C2, amended. For a mixture ratio and a throat diameter other than zero,
  \<^verbatim>\<open>func_Pc_cal\<close> evaluates the characteristic-velocity function at
  \<open>(of, Pc * 1.0e-6)\<close>, takes element \<open>0\<close> of what it returns as \<open>cstr\<close>, and returns
  \<open>eta * cstr * mox * (1 + 1/of)\<close> over the throat area \<open>pi * Dt\<^sup>2 / 4\<close>; an error
  of the function, or an empty result, is raised to the caller.
\<close>

theorem func_Pc_cal_value:
  assumes "o_f \<noteq> 0" and "Dt \<noteq> 0"
  shows "(func_cstr o_f (Pc * (1 / 1000000)) = Inl e \<longrightarrow>
            func_Pc_cal o_f Pc mox func_cstr Dt eta = Inl e)
       \<and> (func_cstr o_f (Pc * (1 / 1000000)) = Inr [] \<longrightarrow>
            func_Pc_cal o_f Pc mox func_cstr Dt eta = Inl IndexError)
       \<and> (func_cstr o_f (Pc * (1 / 1000000)) = Inr (cstr # rest) \<longrightarrow>
            func_Pc_cal o_f Pc mox func_cstr Dt eta
              = Inr (eta * cstr * mox * (1 + 1 / o_f) / (pi * Dt\<^sup>2 / 4)))"
  by (simp add: func_Pc_cal_def ebind_def getitem_def)

theorem func_Pc_cal_value_witness:
  "func_Pc_cal 1 1000000 1 pressure_cstr 2 1 = Inr (1 * 1 * 1 * (1 + 1 / 1) / (pi * 2\<^sup>2 / 4))
   \<and> func_Pc_cal 1 1000000 1 (\<lambda>o_f Pc. Inl (SystemExit 1)) 2 1 = Inl (SystemExit 1)
   \<and> func_Pc_cal 1 1000000 1 (\<lambda>o_f Pc. Inr []) 2 1 = Inl IndexError"
proof -
  have a: "(1::real) \<noteq> 0" "(2::real) \<noteq> 0" by simp_all
  have b: "pressure_cstr 1 (1000000 * (1 / 1000000)) = Inr (1 # [])"
    by (simp add: pressure_cstr_def pressure_velocity_def)
  show ?thesis
    using func_Pc_cal_value [OF a, where func_cstr = pressure_cstr and Pc = 1000000 and cstr = 1
        and rest = "[]" and mox = 1 and eta = 1]
      func_Pc_cal_value [OF a, where func_cstr = "\<lambda>o_f Pc. Inl (SystemExit 1)" and Pc = 1000000
        and e = "SystemExit 1" and mox = 1 and eta = 1]
      func_Pc_cal_value [OF a, where func_cstr = "\<lambda>o_f Pc. Inr []" and Pc = 1000000
        and mox = 1 and eta = 1]
      b
    by simp
qed
text \<open>
  Claim C3. Whatever makes the Newton call (at most 10 iterations, from the initial
  guess) fail, \<^verbatim>\<open>converge_Pc\<close> does not raise it: its result is then that of the Brent
  search over the bracket \<open>[1e4, 1e7]\<close> with 50 iterations. When the Newton call
  returns a pressure, that is the result. An error is the result only when the Newton
  call failed and the Brent search failed with that error.
\<close>

theorem converge_Pc_newton_then_brentq:
  "(newton opt (iterat_func_Pc gen_func_cstr self) Pc_init 10 (1 / 1000) (mox, Dt) = Inr Pc \<longrightarrow>
          converge_Pc opt gen_func_cstr self mox Dt Pc_init = Inr Pc)
   \<and> (newton opt (iterat_func_Pc gen_func_cstr self) Pc_init 10 (1 / 1000) (mox, Dt) = Inl e \<longrightarrow>
          converge_Pc opt gen_func_cstr self mox Dt Pc_init
            = brentq opt (iterat_func_Pc gen_func_cstr self) 10000 10000000 50 (1 / 1000) (mox, Dt))
   \<and> (converge_Pc opt gen_func_cstr self mox Dt Pc_init = Inl e' \<longrightarrow>
          isl (newton opt (iterat_func_Pc gen_func_cstr self) Pc_init 10 (1 / 1000) (mox, Dt))
          \<and> brentq opt (iterat_func_Pc gen_func_cstr self) 10000 10000000 50 (1 / 1000) (mox, Dt) = Inl e')"
  by (auto simp add: converge_Pc_def split: sum.splits)
theorem converge_Pc_newton_then_brentq_witness:
  "converge_Pc stand_in_optimize bounded_gen_func_cstr main_motor (1 / 100) (1 / 500) 1000000
     = Inr (13500000 / pi)
   \<and> converge_Pc stand_in_optimize bounded_gen_func_cstr main_motor (1 / 25) (1 / 500) 1000000
     = brentq stand_in_optimize (iterat_func_Pc bounded_gen_func_cstr main_motor)
         10000 10000000 50 (1 / 1000) (1 / 25, 1 / 500)
   \<and> isl (newton stand_in_optimize (iterat_func_Pc bounded_gen_func_cstr main_motor)
           1000000 10 (1 / 1000) (1 / 25, 1 / 500))
   \<and> brentq stand_in_optimize (iterat_func_Pc bounded_gen_func_cstr main_motor)
         10000 10000000 50 (1 / 1000) (1 / 25, 1 / 500) = Inl ValueError"
proof -
  have n: "newton stand_in_optimize (iterat_func_Pc bounded_gen_func_cstr main_motor)
             1000000 10 (1 / 1000) (1 / 100, 1 / 500) = Inr (13500000 / pi)"
    using cell_converges(1) [of "1 / 100" "1 / 500"] by (simp add: power2_eq_square)
  have f: "newton stand_in_optimize (iterat_func_Pc bounded_gen_func_cstr main_motor)
             1000000 10 (1 / 1000) (1 / 25, 1 / 500) = Inl ValueError"
    using cell_fails(1) [of "1 / 25" "1 / 500"] by (simp add: power2_eq_square)
  have c: "converge_Pc stand_in_optimize bounded_gen_func_cstr main_motor (1 / 25) (1 / 500) 1000000
             = Inl ValueError"
    using cells(2) .
  show ?thesis
    using converge_Pc_newton_then_brentq
        [where opt = stand_in_optimize and gen_func_cstr = bounded_gen_func_cstr
           and self = main_motor and mox = "1 / 100" and Dt = "1 / 500" and Pc_init = 1000000
           and Pc = "13500000 / pi"]
      converge_Pc_newton_then_brentq
        [where opt = stand_in_optimize and gen_func_cstr = bounded_gen_func_cstr
           and self = main_motor and mox = "1 / 25" and Dt = "1 / 500" and Pc_init = 1000000
           and e = ValueError and e' = ValueError]
      n f c
    by blast
qed

text \<open>
  Claim C7, as stated, fails: the function handed to the root finders returns the
  difference divided by the predicted pressure. For the example motor at
  \<open>Pc = 1e6\<close>, \<open>mox = 0.01\<close>, \<open>Dt = 0.002\<close> the predicted pressure is above \<open>3e6\<close>,
  so the returned value is below \<open>1\<close> and the difference above \<open>2e6\<close>.
\<close>

theorem residual_is_not_the_difference:
  "iterat_func_Pc saturating_gen_func_cstr main_motor 1000000 (1 / 100) (1 / 500)
     \<noteq> spec_residual saturating_gen_func_cstr main_motor 1000000 (1 / 100) (1 / 500)"
proof -
  define A where "A = 5400 * (1 / 100) / (pi * (1 / 500)\<^sup>2)"
  have "A = 13500000 / pi" by (simp add: A_def power2_eq_square)
  moreover have "13500000 / 4 < 13500000 / pi"
    using pi_less_4 pi_gt_zero by (intro divide_strict_left_mono) simp_all
  ultimately have big: "3000000 < A" by simp
  then have "(A - 1000000) / A < 1" by simp
  moreover have "1 < A - 1000000" using big by simp
  ultimately have "(A - 1000000) / A < A - 1000000" by (rule less_trans)
  then have ne: "(A - 1000000) / A \<noteq> A - 1000000" by simp
  have "iterat_func_Pc saturating_gen_func_cstr main_motor 1000000 (1 / 100) (1 / 500)
          = Inr ((A - 1000000) / A)"
    unfolding A_def by (rule main_motor_residual) simp_all
  moreover have "spec_residual saturating_gen_func_cstr main_motor 1000000 (1 / 100) (1 / 500)
          = Inr (A - 1000000)"
    unfolding A_def by (rule main_motor_residual_r) simp_all
  ultimately show ?thesis using ne by simp
qed

text \<open>
  Claim C7, amended. Where the characteristic-velocity function is built and the
  predicted pressure \<open>Pc_cal\<close> is computed and not zero, the function that the root
  finders operate on returns the relative difference \<open>(Pc_cal - Pc) / Pc_cal\<close>.
\<close>

theorem iterat_func_Pc_relative:
  assumes "gen_func_cstr (self_cea_path self) = Inr func_cstr"
    and "func_Pc_cal
           (func_of (func_Vox Pc mox (self_Rm self) (self_Tox self) (self_Df self) (self_a self))
              (func_Vf (func_Vox Pc mox (self_Rm self) (self_Tox self) (self_Df self) (self_a self))
                 Pc (self_C1 self) (self_C2 self) 1)
              (self_rho_f self) (self_Df self) (self_a self))
           Pc mox func_cstr Dt (self_eta self) = Inr Pc_cal"
    and "Pc_cal \<noteq> 0"
  shows "iterat_func_Pc gen_func_cstr self Pc mox Dt = Inr ((Pc_cal - Pc) / Pc_cal)"
  using assms by (simp add: iterat_func_Pc_def Let_def ebind_def)

theorem iterat_func_Pc_relative_witness:
  "iterat_func_Pc saturating_gen_func_cstr main_motor 1000000 (1 / 100) (1 / 500)
     = Inr ((5400 * (1 / 100) / (pi * (1 / 500)\<^sup>2) - 1000000)
              / (5400 * (1 / 100) / (pi * (1 / 500)\<^sup>2)))"
proof -
  have a: "saturating_gen_func_cstr (self_cea_path main_motor) = Inr saturating_cstr"
    by (simp add: saturating_gen_func_cstr_def)
  have p: "(0::real) < 1000000" "(0::real) < 1 / 100" by simp_all
  have b: "func_Pc_cal
             (func_of (func_Vox 1000000 (1 / 100) (self_Rm main_motor) (self_Tox main_motor)
                         (self_Df main_motor) (self_a main_motor))
                (func_Vf (func_Vox 1000000 (1 / 100) (self_Rm main_motor) (self_Tox main_motor)
                            (self_Df main_motor) (self_a main_motor))
                   1000000 (self_C1 main_motor) (self_C2 main_motor) 1)
                (self_rho_f main_motor) (self_Df main_motor) (self_a main_motor))
             1000000 (1 / 100) saturating_cstr (1 / 500) (self_eta main_motor)
           = Inr (5400 * (1 / 100) / (pi * (1 / 500)\<^sup>2))"
    unfolding main_motor_fields by (rule saturating_Pc_cal [OF main_motor_of_pos [OF p]])
  have c: "5400 * (1 / 100) / (pi * (1 / 500)\<^sup>2) \<noteq> 0"
    by simp
  show ?thesis
    using iterat_func_Pc_relative
      [where gen_func_cstr = saturating_gen_func_cstr and self = main_motor
         and func_cstr = saturating_cstr, OF a b c] .
qed




end
